theory Spec2Isabelle
  imports Complex_Main "HOL-Library.Multiset"
begin

section \<open>Data model\<close>

text \<open>
  The store is the PostgreSQL schema of the repository: the four tables
  \<^verbatim>\<open>users\<close>, \<^verbatim>\<open>students\<close>, \<^verbatim>\<open>attendance_sessions\<close> and
  \<^verbatim>\<open>attendance_records\<close>, each a list of rows in insertion order, and the two
  sequences behind the \<^verbatim>\<open>SERIAL\<close> keys of sessions and records. A nullable column
  is an \<open>option\<close> (\<open>None\<close> is SQL \<^verbatim>\<open>NULL\<close>). A \<^verbatim>\<open>DATE\<close> is a day number, a
  \<^verbatim>\<open>TIMESTAMP\<close> an integer, a \<^verbatim>\<open>DECIMAL\<close> and the result of \<^verbatim>\<open>AVG\<close> a rational
  (PostgreSQL's \<^verbatim>\<open>numeric\<close>, taken as exact). Columns no handler of the attendance
  or analytics routes reads or writes (\<^verbatim>\<open>created_at\<close>, \<^verbatim>\<open>is_active\<close>, the password
  and e-mail columns) are left out.
\<close>

type_synonym date = int
type_synonym timestamp = int

record user_row =
  user_id :: int
  username :: string
  role :: "string option"

record student_row =
  student_id :: string
  full_name :: string
  face_embedding :: "int list option"
  student_section :: "string option"

record session_row =
  session_id :: int
  teacher_id :: "int option"
  subject :: string
  session_section :: string
  session_date :: date
  session_type :: "string option"
  start_time :: "timestamp option"
  end_time :: "timestamp option"
  total_duration :: "int option"
  total_students :: "int option"

record record_row =
  record_id :: int
  ar_session_id :: "int option"
  ar_student_id :: "string option"
  status :: "string option"
  detection_count :: "int option"
  confidence_score :: "rat option"
  first_detection_time :: "timestamp option"
  last_detection_time :: "timestamp option"

record store =
  users :: "user_row list"
  students :: "student_row list"
  attendance_sessions :: "session_row list"
  attendance_records :: "record_row list"
  session_id_seq :: int
  record_id_seq :: int

subsection \<open>Request payloads\<close>

text \<open>
  The body of \<^verbatim>\<open>POST /api/attendance/save\<close>, already parsed and typed as the
  interface describes it. A property of the JSON object that is \<^verbatim>\<open>undefined\<close> or
  \<^verbatim>\<open>null\<close> is \<open>None\<close>; for \<^verbatim>\<open>section\<close> and \<^verbatim>\<open>sessionType\<close> the two differ, because
  a destructuring default replaces \<^verbatim>\<open>undefined\<close> only, so these two fields keep
  the three cases apart.
\<close>

datatype 'a js = Undefined | Null | Val 'a

record session_data =
  startTime :: "timestamp option"
  endTime :: "timestamp option"
  duration :: "int option"

record attendance_record =
  studentId :: "string option"
  rec_status :: "string option"
  detectionCount :: "int option"
  confidenceScore :: "rat option"
  firstDetectionTime :: "timestamp option"
  lastDetectionTime :: "timestamp option"

record save_body =
  sessionData :: "session_data option"
  attendanceRecords :: "attendance_record list option"
  body_subject :: "string option"
  body_section :: "string js"
  sessionType :: "string js"

text \<open>What the handler reads besides the body: the authenticated principal
  (\<^verbatim>\<open>req.user.userId\<close>) and the clock (\<^verbatim>\<open>new Date()\<close>, as a UTC day number).\<close>

record request_ctx =
  userId :: "int option"
  today :: date

text \<open>The two failures of the specification: \<open>ValidationError\<close> is the handler's
  HTTP 400 response, \<open>PersistenceError\<close> its HTTP 500 response.\<close>

datatype error = ValidationError | PersistenceError

datatype db_error =
  StringTooLong | NumericOutOfRange | SequenceExhausted | NotNullViolation | UniqueViolation
  | ForeignKeyViolation | DivisionByZero | ConnectionFailure

section \<open>The store's column types and constraints\<close>

text \<open>Assignment to \<^verbatim>\<open>VARCHAR(n)\<close>: a longer string is an error unless the excess
  characters are all spaces, which are cut off.\<close>

definition varchar :: "nat \<Rightarrow> string \<Rightarrow> string option" where
  "varchar n s =
     (if length s \<le> n then Some s
      else if list_all (\<lambda>c. c = CHR '' '') (drop n s) then Some (take n s)
      else None)"

text \<open>The range of \<^verbatim>\<open>INTEGER\<close>; a value outside it is an error of the statement.\<close>

definition int4 :: "int \<Rightarrow> bool" where
  "int4 i \<longleftrightarrow> - 2147483648 \<le> i \<and> i \<le> 2147483647"

text \<open>Assignment to \<^verbatim>\<open>DECIMAL(4,3)\<close>: the value is rounded to three decimals, half
  away from zero, and must then be below 10 in absolute value.\<close>

definition round_half_away :: "rat \<Rightarrow> int" where
  "round_half_away x = (if 0 \<le> x then \<lfloor>x + 1 / 2\<rfloor> else - \<lfloor>- x + 1 / 2\<rfloor>)"

definition decimal_4_3 :: "rat \<Rightarrow> rat option" where
  "decimal_4_3 x =
     (let m = round_half_away (x * 1000)
      in if \<bar>m\<bar> < 10000 then Some (of_int m / 1000) else None)"

text \<open>The same for nullable columns: \<^verbatim>\<open>NULL\<close> is stored as it is, \<open>fit n\<close> is the
  value a \<^verbatim>\<open>VARCHAR(n)\<close> column holds, and \<open>too_long n\<close> tells that the assignment
  fails.\<close>

definition int4_opt :: "int option \<Rightarrow> bool" where
  "int4_opt v = (case v of None \<Rightarrow> True | Some i \<Rightarrow> int4 i)"

definition fit :: "nat \<Rightarrow> string option \<Rightarrow> string option" where
  "fit n v = (case v of None \<Rightarrow> None | Some s \<Rightarrow> varchar n s)"

definition too_long :: "nat \<Rightarrow> string option \<Rightarrow> bool" where
  "too_long n v \<longleftrightarrow> v \<noteq> None \<and> fit n v = None"

definition fit_decimal :: "rat option \<Rightarrow> rat option" where
  "fit_decimal v = (case v of None \<Rightarrow> None | Some x \<Rightarrow> decimal_4_3 x)"

text \<open>A foreign key: \<^verbatim>\<open>NULL\<close> references nothing, any other value must be a key
  of the referenced table.\<close>

definition fk_ok :: "'k option \<Rightarrow> 'k list \<Rightarrow> bool" where
  "fk_ok v ks = (case v of None \<Rightarrow> True | Some k \<Rightarrow> k \<in> set ks)"

section \<open>The INSERT statements\<close>

text \<open>
  A \<^verbatim>\<open>SERIAL\<close> key is an \<^verbatim>\<open>INTEGER\<close> drawn from a sequence of that type. A statement
  whose parameters do not fit their columns fails before it draws a key, and so does one
  whose sequence has no value left in the range of \<^verbatim>\<open>INTEGER\<close>. A statement that
  fails on a constraint (\<^verbatim>\<open>NOT NULL\<close>, a primary or a foreign key) has drawn its key,
  and the sequence does not give it back.
\<close>

definition draws_key :: "db_error \<Rightarrow> bool" where
  "draws_key err \<longleftrightarrow>
     err = NotNullViolation \<or> err = UniqueViolation \<or> err = ForeignKeyViolation"

text \<open>
  \<^verbatim>\<open>INSERT INTO attendance_sessions (...) VALUES ($1, ..., $9)\<close> with the key \<open>sid\<close>
  that the sequence offers: the nine parameters are coerced to their columns, the key
  must be an \<^verbatim>\<open>INTEGER\<close>, then \<^verbatim>\<open>NOT NULL\<close>, the primary key and the foreign key to
  \<^verbatim>\<open>users\<close> are checked. The result is the new row or the error that PostgreSQL
  raises.
\<close>

definition session_row_of ::
  "store \<Rightarrow> int \<Rightarrow> int option \<Rightarrow> string option \<Rightarrow> string option \<Rightarrow> date \<Rightarrow> string option
     \<Rightarrow> timestamp option \<Rightarrow> timestamp option \<Rightarrow> int option \<Rightarrow> int option
     \<Rightarrow> db_error + session_row" where
  "session_row_of st sid t sub sec d ty s e dur tot =
     (if \<not> int4_opt t \<or> \<not> int4_opt dur \<or> \<not> int4_opt tot then Inl NumericOutOfRange
      else if too_long 100 sub \<or> too_long 10 sec \<or> too_long 20 ty then Inl StringTooLong
      else if \<not> int4 sid then Inl SequenceExhausted
      else (case (fit 100 sub, fit 10 sec) of
          (Some sub', Some sec') \<Rightarrow>
            if sid \<in> set (map session_id (attendance_sessions st)) then Inl UniqueViolation
            else if \<not> fk_ok t (map user_id (users st)) then Inl ForeignKeyViolation
            else Inr \<lparr>session_id = sid, teacher_id = t, subject = sub', session_section = sec',
                      session_date = d, session_type = fit 20 ty, start_time = s, end_time = e,
                      total_duration = dur, total_students = tot\<rparr>
        | _ \<Rightarrow> Inl NotNullViolation))"

text \<open>The statement returns the key (\<^verbatim>\<open>RETURNING session_id\<close>); the sequence moves
  on when the key was drawn.\<close>

definition insert_session ::
  "store \<Rightarrow> int option \<Rightarrow> string option \<Rightarrow> string option \<Rightarrow> date \<Rightarrow> string option
     \<Rightarrow> timestamp option \<Rightarrow> timestamp option \<Rightarrow> int option \<Rightarrow> int option
     \<Rightarrow> (db_error + int) \<times> store" where
  "insert_session st t sub sec d ty s e dur tot =
     (let sid = session_id_seq st
      in case session_row_of st sid t sub sec d ty s e dur tot of
           Inl err \<Rightarrow>
             (Inl err, if draws_key err then st\<lparr>session_id_seq := sid + 1\<rparr> else st)
         | Inr row \<Rightarrow>
             (Inr sid, st\<lparr>session_id_seq := sid + 1,
                          attendance_sessions := attendance_sessions st @ [row]\<rparr>))"

text \<open>
  \<^verbatim>\<open>INSERT INTO attendance_records (...) VALUES ($1, ..., $7)\<close> for one element of
  \<^verbatim>\<open>attendanceRecords\<close>, with the key \<open>rid\<close> that the sequence offers; \<^verbatim>\<open>$1\<close> is
  the key of the session just inserted.
\<close>

definition record_values :: "int \<Rightarrow> int \<Rightarrow> attendance_record \<Rightarrow> record_row" where
  "record_values rid sid r =
     \<lparr>record_id = rid, ar_session_id = Some sid, ar_student_id = fit 50 (studentId r),
      status = fit 20 (rec_status r), detection_count = detectionCount r,
      confidence_score = fit_decimal (confidenceScore r),
      first_detection_time = firstDetectionTime r,
      last_detection_time = lastDetectionTime r\<rparr>"

definition record_row_of :: "store \<Rightarrow> int \<Rightarrow> int \<Rightarrow> attendance_record \<Rightarrow> db_error + record_row" where
  "record_row_of st rid sid r =
     (if \<not> int4_opt (detectionCount r) then Inl NumericOutOfRange
      else if confidenceScore r \<noteq> None \<and> fit_decimal (confidenceScore r) = None
        then Inl NumericOutOfRange
      else if too_long 50 (studentId r) \<or> too_long 20 (rec_status r) then Inl StringTooLong
      else if \<not> int4 rid then Inl SequenceExhausted
      else if rid \<in> set (map record_id (attendance_records st)) then Inl UniqueViolation
      else if sid \<notin> set (map session_id (attendance_sessions st)) then Inl ForeignKeyViolation
      else if \<not> fk_ok (fit 50 (studentId r)) (map student_id (students st))
        then Inl ForeignKeyViolation
      else Inr (record_values rid sid r))"

definition insert_record :: "store \<Rightarrow> int \<Rightarrow> attendance_record \<Rightarrow> db_error option \<times> store" where
  "insert_record st sid r =
     (let rid = record_id_seq st
      in case record_row_of st rid sid r of
           Inl err \<Rightarrow>
             (Some err, if draws_key err then st\<lparr>record_id_seq := rid + 1\<rparr> else st)
         | Inr row \<Rightarrow>
             (None, st\<lparr>record_id_seq := rid + 1,
                       attendance_records := attendance_records st @ [row]\<rparr>))"

text \<open>The loop \<^verbatim>\<open>for (const record of attendanceRecords)\<close>: one INSERT per element,
  in order; the first statement that fails throws and ends the loop.\<close>

fun insert_records :: "store \<Rightarrow> int \<Rightarrow> attendance_record list \<Rightarrow> db_error option \<times> store" where
  "insert_records st sid [] = (None, st)"
| "insert_records st sid (r # rs) =
     (case insert_record st sid r of
        (Some err, st') \<Rightarrow> (Some err, st')
      | (None, st') \<Rightarrow> insert_records st' sid rs)"

section \<open>The Session Recorder: POST /api/attendance/save\<close>

text \<open>\<^verbatim>\<open>ROLLBACK\<close> puts the four tables back as they were at \<^verbatim>\<open>BEGIN\<close>; the
  sequences are not transactional and keep their values.\<close>

definition rollback :: "store \<Rightarrow> store \<Rightarrow> store" where
  "rollback snapshot st =
     st\<lparr>users := users snapshot, students := students snapshot,
        attendance_sessions := attendance_sessions snapshot,
        attendance_records := attendance_records snapshot\<rparr>"

text \<open>A destructuring default (\<^verbatim>\<open>section = 'S33'\<close>) replaces \<^verbatim>\<open>undefined\<close> only;
  \<^verbatim>\<open>null\<close> reaches the statement as \<^verbatim>\<open>NULL\<close>.\<close>

definition js_default :: "'a \<Rightarrow> 'a js \<Rightarrow> 'a option" where
  "js_default d v = (case v of Undefined \<Rightarrow> Some d | Null \<Rightarrow> None | Val x \<Rightarrow> Some x)"

text \<open>\<^verbatim>\<open>!subject\<close>: a string is falsy when it is absent or empty.\<close>

definition falsy_str :: "string option \<Rightarrow> bool" where
  "falsy_str v = (case v of None \<Rightarrow> True | Some s \<Rightarrow> s = [])"

text \<open>
  The handler. It answers 400 when \<^verbatim>\<open>sessionData\<close>, \<^verbatim>\<open>attendanceRecords\<close> or
  \<^verbatim>\<open>subject\<close> is falsy (an array, also an empty one, is truthy). Otherwise it
  opens a transaction, inserts the session with \<^verbatim>\<open>attendanceRecords.length\<close> as
  \<^verbatim>\<open>total_students\<close>, inserts the records, and commits; a statement that throws
  leads to \<^verbatim>\<open>ROLLBACK\<close> and the 500 response. The result is the response and the
  store after the call. The statements fail by the constraints of the schema;
  a lost connection is outside this model.
\<close>

definition save :: "request_ctx \<Rightarrow> save_body \<Rightarrow> store \<Rightarrow> (error + int) \<times> store" where
  "save ctx body st =
     (case sessionData body of
        None \<Rightarrow> (Inl ValidationError, st)
      | Some sd \<Rightarrow>
     (case attendanceRecords body of
        None \<Rightarrow> (Inl ValidationError, st)
      | Some recs \<Rightarrow>
          if falsy_str (body_subject body) then (Inl ValidationError, st)
          else
            (case insert_session st (userId ctx) (body_subject body)
                    (js_default ''S33'' (body_section body)) (today ctx)
                    (js_default ''offline'' (sessionType body))
                    (startTime sd) (endTime sd) (duration sd) (Some (int (length recs))) of
               (Inl err, st1) \<Rightarrow> (Inl PersistenceError, rollback st st1)
             | (Inr sid, st1) \<Rightarrow>
                 (case insert_records st1 sid recs of
                    (Some err, st2) \<Rightarrow> (Inl PersistenceError, rollback st st2)
                  | (None, st2) \<Rightarrow> (Inr sid, st2)))))"

section \<open>Enrollment: POST /api/students/enroll\<close>

record enroll_body =
  en_studentId :: "string option"
  en_fullName :: "string option"
  en_faceEmbedding :: "int list option"
  en_section :: "string js"

definition student_row_of ::
  "store \<Rightarrow> string option \<Rightarrow> string option \<Rightarrow> int list option \<Rightarrow> string option
     \<Rightarrow> db_error + student_row" where
  "student_row_of st sid name emb sec =
     (if too_long 50 sid \<or> too_long 255 name \<or> too_long 10 sec then Inl StringTooLong
      else (case (fit 50 sid, fit 255 name) of
          (Some sid', Some name') \<Rightarrow>
            if sid' \<in> set (map student_id (students st)) then Inl UniqueViolation
            else Inr \<lparr>student_id = sid', full_name = name', face_embedding = emb,
                      student_section = fit 10 sec\<rparr>
        | _ \<Rightarrow> Inl NotNullViolation))"

text \<open>The handler answers 400 when a field is missing or when
  \<^verbatim>\<open>SELECT student_id FROM students WHERE student_id = $1\<close> finds a row, and 500
  when the INSERT fails. It writes to \<^verbatim>\<open>students\<close> alone.\<close>

definition enroll :: "enroll_body \<Rightarrow> store \<Rightarrow> (error + student_row) \<times> store" where
  "enroll body st =
     (if falsy_str (en_studentId body) \<or> falsy_str (en_fullName body)
         \<or> en_faceEmbedding body = None then (Inl ValidationError, st)
      else if filter (\<lambda>s. Some (student_id s) = en_studentId body) (students st) \<noteq> []
        then (Inl ValidationError, st)
      else (case student_row_of st (en_studentId body) (en_fullName body)
                   (en_faceEmbedding body) (js_default ''S33'' (en_section body)) of
              Inl err \<Rightarrow> (Inl PersistenceError, st)
            | Inr row \<Rightarrow> (Inr row, st\<lparr>students := students st @ [row]\<rparr>)))"

text \<open>The two requests that write to the store, and the store after one of them.\<close>

datatype request = Save request_ctx save_body | Enroll enroll_body

fun step :: "store \<Rightarrow> request \<Rightarrow> store" where
  "step st (Save ctx body) = snd (save ctx body st)"
| "step st (Enroll body) = snd (enroll body st)"

section \<open>The Analytics Aggregator: GET /api/attendance/analytics\<close>

subsection \<open>SQL building blocks\<close>

text \<open>\<^verbatim>\<open>xs JOIN ys ON on\<close> and \<^verbatim>\<open>xs LEFT JOIN ys ON on\<close>: a left row with no match
  is kept once by the left join, with \<^verbatim>\<open>NULL\<close>s for the right row.\<close>

definition inner_join :: "('a \<Rightarrow> 'b \<Rightarrow> bool) \<Rightarrow> 'a list \<Rightarrow> 'b list \<Rightarrow> ('a \<times> 'b) list" where
  "inner_join on xs ys = concat (map (\<lambda>x. map (Pair x) (filter (on x) ys)) xs)"

definition left_join ::
  "('a \<Rightarrow> 'b \<Rightarrow> bool) \<Rightarrow> 'a list \<Rightarrow> 'b list \<Rightarrow> ('a \<times> 'b option) list" where
  "left_join on xs ys =
     concat (map (\<lambda>x. case filter (on x) ys of
                          [] \<Rightarrow> [(x, None)]
                        | m # ms \<Rightarrow> map (\<lambda>y. (x, Some y)) (m # ms)) xs)"

text \<open>Aggregates skip \<^verbatim>\<open>NULL\<close>: \<^verbatim>\<open>COUNT(e)\<close> counts the other values, \<^verbatim>\<open>AVG(e)\<close> is
  their mean, and \<^verbatim>\<open>NULL\<close> when there is none. \<^verbatim>\<open>COUNT(*)\<close> is the length of the
  group. A division by zero is an error of the statement.\<close>

fun non_null :: "'a option list \<Rightarrow> 'a list" where
  "non_null [] = []"
| "non_null (None # vs) = non_null vs"
| "non_null (Some x # vs) = x # non_null vs"

definition sql_count :: "'a option list \<Rightarrow> nat" where
  "sql_count vs = length (non_null vs)"

definition sql_avg :: "rat option list \<Rightarrow> rat option" where
  "sql_avg vs =
     (let xs = non_null vs
      in if xs = [] then None else Some (sum_list xs / of_nat (length xs)))"

definition sql_div :: "rat \<Rightarrow> rat \<Rightarrow> db_error + rat" where
  "sql_div a b = (if b = 0 then Inl DivisionByZero else Inr (a / b))"

text \<open>The rows of a statement whose rows are computed one by one: the first error
  is the statement's.\<close>

fun collect :: "('e + 'a) list \<Rightarrow> 'e + 'a list" where
  "collect [] = Inr []"
| "collect (x # xs) =
     (case x of
        Inl e \<Rightarrow> Inl e
      | Inr v \<Rightarrow> (case collect xs of Inl e \<Rightarrow> Inl e | Inr vs \<Rightarrow> Inr (v # vs)))"

text \<open>\<^verbatim>\<open>ar.status = 'present'\<close>; the comparison is not true of \<^verbatim>\<open>NULL\<close>.\<close>

definition is_present :: "record_row \<Rightarrow> bool" where
  "is_present ar \<longleftrightarrow> status ar = Some ''present''"

subsection \<open>Attendance trends\<close>

text \<open>
  \<^verbatim>\<open>FROM attendance_sessions s LEFT JOIN attendance_records ar
      ON s.session_id = ar.session_id
    WHERE s.session_date >= CURRENT_DATE - INTERVAL '30 days'\<close>,
  with \<open>cur\<close> for \<^verbatim>\<open>CURRENT_DATE\<close>.
\<close>

definition trend_from :: "date \<Rightarrow> store \<Rightarrow> (session_row \<times> record_row option) list" where
  "trend_from cur st =
     filter (\<lambda>(s, ar). cur - 30 \<le> session_date s)
       (left_join (\<lambda>s ar. ar_session_id ar = Some (session_id s))
          (attendance_sessions st) (attendance_records st))"

text \<open>The rows of one group of \<^verbatim>\<open>GROUP BY session_date\<close>.\<close>

definition trend_group :: "date \<Rightarrow> store \<Rightarrow> date \<Rightarrow> (session_row \<times> record_row option) list" where
  "trend_group cur st d = filter (\<lambda>(s, ar). session_date s = d) (trend_from cur st)"

text \<open>\<^verbatim>\<open>CASE WHEN ar.status = 'present' THEN 1 ELSE 0 END * 100\<close>, on a joined row
  whose record may be \<^verbatim>\<open>NULL\<close>.\<close>

definition present_rate :: "record_row option \<Rightarrow> int" where
  "present_rate ar =
     (case ar of None \<Rightarrow> 0 | Some r \<Rightarrow> if is_present r then 1 else 0) * 100"

record trend_row =
  tr_session_date :: date
  tr_total_sessions :: nat
  tr_attendance_rate :: "rat option"

text \<open>\<^verbatim>\<open>SELECT session_date, COUNT(*) as total_sessions, AVG(...) as attendance_rate
    ... GROUP BY session_date ORDER BY session_date\<close>.\<close>

definition trends :: "date \<Rightarrow> store \<Rightarrow> trend_row list" where
  "trends cur st =
     map (\<lambda>d. \<lparr>tr_session_date = d,
                tr_total_sessions = length (trend_group cur st d),
                tr_attendance_rate =
                  sql_avg (map (\<lambda>(s, ar). Some (of_int (present_rate ar))) (trend_group cur st d))\<rparr>)
       (sort (remdups (map (\<lambda>(s, ar). session_date s) (trend_from cur st))))"

subsection \<open>Engagement\<close>

text \<open>
  \<^verbatim>\<open>FROM attendance_sessions s JOIN attendance_records ar
      ON s.session_id = ar.session_id
    WHERE s.session_date >= CURRENT_DATE - INTERVAL '7 days'\<close>.
\<close>

definition engagement_from :: "date \<Rightarrow> store \<Rightarrow> (session_row \<times> record_row) list" where
  "engagement_from cur st =
     filter (\<lambda>(s, ar). cur - 7 \<le> session_date s)
       (inner_join (\<lambda>s ar. ar_session_id ar = Some (session_id s))
          (attendance_sessions st) (attendance_records st))"

definition engagement_group :: "date \<Rightarrow> store \<Rightarrow> string \<Rightarrow> (session_row \<times> record_row) list" where
  "engagement_group cur st sec =
     filter (\<lambda>(s, ar). session_section s = sec) (engagement_from cur st)"

record engagement_row =
  eg_section :: string
  avg_engagement :: "rat option"
  present_count :: nat
  total_count :: nat

text \<open>\<^verbatim>\<open>SELECT s.section, AVG(ar.confidence_score) as avg_engagement,
    COUNT(CASE WHEN ar.status = 'present' THEN 1 END) as present_count,
    COUNT(*) as total_count ... GROUP BY s.section\<close>. The statement has no
  \<^verbatim>\<open>ORDER BY\<close>, so the order of its rows is not fixed; the model takes one.\<close>

definition engagement :: "date \<Rightarrow> store \<Rightarrow> engagement_row list" where
  "engagement cur st =
     map (\<lambda>sec. \<lparr>eg_section = sec,
                  avg_engagement =
                    sql_avg (map (\<lambda>(s, ar). confidence_score ar) (engagement_group cur st sec)),
                  present_count =
                    sql_count (map (\<lambda>(s, ar). if is_present ar then Some (1 :: int) else None)
                                 (engagement_group cur st sec)),
                  total_count = length (engagement_group cur st sec)\<rparr>)
       (remdups (map (\<lambda>(s, ar). session_section s) (engagement_from cur st)))"

subsection \<open>Students at risk\<close>

text \<open>
  \<^verbatim>\<open>FROM students st
    LEFT JOIN attendance_records ar ON st.student_id = ar.student_id
    LEFT JOIN attendance_sessions s ON ar.session_id = s.session_id
    WHERE s.session_date >= CURRENT_DATE - INTERVAL '30 days'\<close>.
  The condition is not true of a row whose session is \<^verbatim>\<open>NULL\<close>.
\<close>

definition risk_from ::
  "date \<Rightarrow> store \<Rightarrow> ((student_row \<times> record_row option) \<times> session_row option) list" where
  "risk_from cur st =
     filter (\<lambda>((stu, ar), s). case s of None \<Rightarrow> False | Some s' \<Rightarrow> cur - 30 \<le> session_date s')
       (left_join
          (\<lambda>(stu, ar) s. case ar of None \<Rightarrow> False
                                     | Some r \<Rightarrow> ar_session_id r = Some (session_id s))
          (left_join (\<lambda>stu ar. ar_student_id ar = Some (student_id stu))
             (students st) (attendance_records st))
          (attendance_sessions st))"

text \<open>The key of \<^verbatim>\<open>GROUP BY st.student_id, st.full_name\<close> and the rows of one
  group.\<close>

definition risk_key ::
  "(student_row \<times> record_row option) \<times> session_row option \<Rightarrow> string \<times> string" where
  "risk_key row = (case row of ((stu, ar), s) \<Rightarrow> (student_id stu, full_name stu))"

definition risk_group ::
  "date \<Rightarrow> store \<Rightarrow> string \<times> string
     \<Rightarrow> ((student_row \<times> record_row option) \<times> session_row option) list" where
  "risk_group cur st k = filter (\<lambda>row. risk_key row = k) (risk_from cur st)"

text \<open>\<^verbatim>\<open>COUNT(CASE WHEN ar.status = 'present' THEN 1 END)\<close> over a group.\<close>

definition attended ::
  "((student_row \<times> record_row option) \<times> session_row option) list \<Rightarrow> nat" where
  "attended g =
     sql_count (map (\<lambda>((stu, ar), s).
                   case ar of None \<Rightarrow> None
                   | Some r \<Rightarrow> if is_present r then Some (1 :: int) else None) g)"

record risk_row =
  rk_full_name :: string
  rk_student_id :: string
  rk_total_sessions :: nat
  rk_attended_sessions :: nat
  attendance_percentage :: rat

text \<open>The row of one group:
  \<^verbatim>\<open>COUNT(CASE ...) * 100.0 / COUNT(*)\<close> as \<^verbatim>\<open>attendance_percentage\<close>.\<close>

definition risk_row_of ::
  "string \<times> string \<Rightarrow> ((student_row \<times> record_row option) \<times> session_row option) list
     \<Rightarrow> db_error + risk_row" where
  "risk_row_of k g =
     (case sql_div (of_nat (attended g) * 100) (of_nat (length g)) of
        Inl e \<Rightarrow> Inl e
      | Inr p \<Rightarrow> Inr \<lparr>rk_full_name = snd k, rk_student_id = fst k,
                      rk_total_sessions = length g, rk_attended_sessions = attended g,
                      attendance_percentage = p\<rparr>)"

text \<open>\<^verbatim>\<open>... GROUP BY st.student_id, st.full_name HAVING (...) < 75
    ORDER BY attendance_percentage ASC\<close>. Rows of equal percentage keep the
  order of their groups.\<close>

definition riskStudents :: "date \<Rightarrow> store \<Rightarrow> db_error + risk_row list" where
  "riskStudents cur st =
     (case collect (map (\<lambda>k. risk_row_of k (risk_group cur st k))
                      (remdups (map risk_key (risk_from cur st)))) of
        Inl e \<Rightarrow> Inl e
      | Inr rows \<Rightarrow>
          Inr (sort_key attendance_percentage
                 (filter (\<lambda>row. attendance_percentage row < 75) rows)))"

subsection \<open>The handler\<close>

text \<open>\<^verbatim>\<open>pool.query\<close>: the statement's result when the pool serves the query, an
  error when it does not.\<close>

definition pool_query :: "bool \<Rightarrow> db_error + 'a \<Rightarrow> db_error + 'a" where
  "pool_query served res = (if served then res else Inl ConnectionFailure)"

record analytics_response =
  res_trends :: "trend_row list"
  res_engagement :: "engagement_row list"
  res_riskStudents :: "risk_row list"

text \<open>
  The handler awaits the three queries in turn inside one \<^verbatim>\<open>try\<close> and answers
  with the three results; a query that throws leads to the 500 response. \<open>served i\<close>
  tells whether the pool serves the \<open>i\<close>-th query of the request.
\<close>

definition analytics :: "(nat \<Rightarrow> bool) \<Rightarrow> date \<Rightarrow> store \<Rightarrow> error + analytics_response" where
  "analytics served cur st =
     (case pool_query (served 0) (Inr (trends cur st)) of
        Inl e \<Rightarrow> Inl PersistenceError
      | Inr t \<Rightarrow>
     (case pool_query (served 1) (Inr (engagement cur st)) of
        Inl e \<Rightarrow> Inl PersistenceError
      | Inr g \<Rightarrow>
     (case pool_query (served 2) (riskStudents cur st) of
        Inl e \<Rightarrow> Inl PersistenceError
      | Inr r \<Rightarrow> Inr \<lparr>res_trends = t, res_engagement = g, res_riskStudents = r\<rparr>)))"

section \<open>Properties of the store\<close>

text \<open>The four tables of a store, without its sequences.\<close>

definition tables ::
  "store \<Rightarrow> user_row list \<times> student_row list \<times> session_row list \<times> record_row list" where
  "tables st = (users st, students st, attendance_sessions st, attendance_records st)"

text \<open>The rows that the loop stores for a sequence of submitted records, the first
  under the key \<open>rid\<close>.\<close>

fun rows_from :: "int \<Rightarrow> int \<Rightarrow> attendance_record list \<Rightarrow> record_row list" where
  "rows_from rid sid [] = []"
| "rows_from rid sid (r # rs) = record_values rid sid r # rows_from (rid + 1) sid rs"

text \<open>The primary keys of the schema: no two students, sessions or records share
  their key.\<close>

definition keys_unique :: "store \<Rightarrow> bool" where
  "keys_unique st \<longleftrightarrow>
     distinct (map student_id (students st)) \<and>
     distinct (map session_id (attendance_sessions st)) \<and>
     distinct (map record_id (attendance_records st))"

text \<open>
  A well-formed store: its keys are unique, the keys of sessions and records lie below
  their sequences (as they do when every key was drawn from its sequence), and a
  record's \<^verbatim>\<open>session_id\<close> is \<^verbatim>\<open>NULL\<close> or the key of a session (the foreign key).
\<close>

definition wf_store :: "store \<Rightarrow> bool" where
  "wf_store st \<longleftrightarrow>
     keys_unique st \<and>
     (\<forall>s \<in> set (attendance_sessions st). session_id s < session_id_seq st) \<and>
     (\<forall>r \<in> set (attendance_records st). record_id r < record_id_seq st) \<and>
     (\<forall>r \<in> set (attendance_records st).
        fk_ok (ar_session_id r) (map session_id (attendance_sessions st)))"

text \<open>
  The values that the two INSERT statements accept, whatever keys the sequences
  hand out: each fits its column, the columns declared \<^verbatim>\<open>NOT NULL\<close> are given, and
  the teacher and the student are \<^verbatim>\<open>NULL\<close> or known. The status of a record is
  accepted when it fits \<^verbatim>\<open>VARCHAR(20)\<close>.
\<close>

definition session_accepts ::
  "int list \<Rightarrow> int option \<Rightarrow> string option \<Rightarrow> string option \<Rightarrow> string option
     \<Rightarrow> int option \<Rightarrow> int option \<Rightarrow> bool" where
  "session_accepts us t sub sec ty dur tot \<longleftrightarrow>
     int4_opt t \<and> int4_opt dur \<and> int4_opt tot \<and>
     \<not> too_long 100 sub \<and> \<not> too_long 10 sec \<and> \<not> too_long 20 ty \<and>
     sub \<noteq> None \<and> sec \<noteq> None \<and> fk_ok t us"

definition record_accepts :: "string list \<Rightarrow> attendance_record \<Rightarrow> bool" where
  "record_accepts ss r \<longleftrightarrow>
     int4_opt (detectionCount r) \<and>
     (confidenceScore r = None \<or> fit_decimal (confidenceScore r) \<noteq> None) \<and>
     \<not> too_long 50 (studentId r) \<and> \<not> too_long 20 (rec_status r) \<and>
     fk_ok (fit 50 (studentId r)) ss"

definition request_accepted :: "request_ctx \<Rightarrow> save_body \<Rightarrow> store \<Rightarrow> bool" where
  "request_accepted ctx body st =
     (case (sessionData body, attendanceRecords body) of
        (Some sd, Some recs) \<Rightarrow>
          session_accepts (map user_id (users st)) (userId ctx) (body_subject body)
            (js_default ''S33'' (body_section body)) (js_default ''offline'' (sessionType body))
            (duration sd) (Some (int (length recs))) \<and>
          list_all (record_accepts (map student_id (students st))) recs
      | _ \<Rightarrow> False)"

text \<open>The record rows of the store that belong to the session with key \<open>sid\<close>.\<close>

definition records_of :: "store \<Rightarrow> int \<Rightarrow> record_row list" where
  "records_of st sid = filter (\<lambda>r. ar_session_id r = Some sid) (attendance_records st)"

text \<open>
  The last \<open>n\<close> days, seen from the day \<open>cur\<close>: the days from \<open>cur - n\<close> to \<open>cur\<close>.
  The queries test the lower bound alone; a store has no session after \<open>cur\<close> when no
  session is dated in the future.
\<close>

definition in_last_days :: "int \<Rightarrow> date \<Rightarrow> date \<Rightarrow> bool" where
  "in_last_days n cur d \<longleftrightarrow> cur - n \<le> d \<and> d \<le> cur"

definition no_future_sessions :: "date \<Rightarrow> store \<Rightarrow> bool" where
  "no_future_sessions cur st \<longleftrightarrow> (\<forall>s \<in> set (attendance_sessions st). session_date s \<le> cur)"

text \<open>The sequences can still hand out \<open>m\<close> session keys and \<open>n\<close> record keys in the
  range of \<^verbatim>\<open>INTEGER\<close>.\<close>

definition keys_available :: "store \<Rightarrow> nat \<Rightarrow> nat \<Rightarrow> bool" where
  "keys_available st m n \<longleftrightarrow>
     - 2147483648 \<le> session_id_seq st \<and> session_id_seq st + int m \<le> 2147483648 \<and>
     - 2147483648 \<le> record_id_seq st \<and> record_id_seq st + int n \<le> 2147483648"

text \<open>The status of a submitted record is absent or has at most 20 characters.\<close>

definition status_fits :: "attendance_record \<Rightarrow> bool" where
  "status_fits r = (case rec_status r of None \<Rightarrow> True | Some s \<Rightarrow> length s \<le> 20)"

text \<open>The store without one of its session rows.\<close>

definition without_session :: "store \<Rightarrow> session_row \<Rightarrow> store" where
  "without_session st s = st\<lparr>attendance_sessions := remove1 s (attendance_sessions st)\<rparr>"

text \<open>The records of a section in the engagement window: those joined, through their
  \<^verbatim>\<open>session_id\<close>, to a session of that section dated within the last 7 days.\<close>

definition section_records :: "date \<Rightarrow> store \<Rightarrow> string \<Rightarrow> record_row list" where
  "section_records cur st sec =
     filter (\<lambda>r. \<exists>s \<in> set (attendance_sessions st).
                   ar_session_id r = Some (session_id s) \<and> session_section s = sec \<and>
                   in_last_days 7 cur (session_date s))
       (attendance_records st)"

text \<open>The records of a student in the risk window: those that carry the student's id
  and are joined to a session dated within the last 30 days.\<close>

definition student_records :: "date \<Rightarrow> store \<Rightarrow> string \<Rightarrow> record_row list" where
  "student_records cur st sid =
     filter (\<lambda>r. ar_student_id r = Some sid \<and>
                 (\<exists>s \<in> set (attendance_sessions st).
                    ar_session_id r = Some (session_id s) \<and>
                    in_last_days 30 cur (session_date s)))
       (attendance_records st)"

text \<open>\<open>100 * present_count / total_count\<close> over a list of records.\<close>

definition percentage_of :: "record_row list \<Rightarrow> rat" where
  "percentage_of rs = of_nat (length (filter is_present rs)) * 100 / of_nat (length rs)"

text \<open>The result row of the risk query for the group with key \<open>k\<close>, when the group is
  not empty.\<close>

definition group_row :: "date \<Rightarrow> store \<Rightarrow> string \<times> string \<Rightarrow> risk_row" where
  "group_row cur st k =
     \<lparr>rk_full_name = snd k, rk_student_id = fst k,
      rk_total_sessions = length (risk_group cur st k),
      rk_attended_sessions = attended (risk_group cur st k),
      attendance_percentage =
        of_nat (attended (risk_group cur st k)) * 100 / of_nat (length (risk_group cur st k))\<rparr>"

text \<open>The rows that the two joins and the \<^verbatim>\<open>WHERE\<close> of the risk query leave for one
  student: one for each of the student's records and each session in the window that
  the record is joined to.\<close>

definition student_rows ::
  "date \<Rightarrow> store \<Rightarrow> student_row
     \<Rightarrow> ((student_row \<times> record_row option) \<times> session_row option) list" where
  "student_rows cur st stu =
     concat (map (\<lambda>r. map (\<lambda>s. ((stu, Some r), Some s))
                          (filter (\<lambda>s. ar_session_id r = Some (session_id s) \<and>
                                       cur - 30 \<le> session_date s)
                             (attendance_sessions st)))
               (filter (\<lambda>r. ar_student_id r = Some (student_id stu)) (attendance_records st)))"

section \<open>Example stores and requests\<close>

text \<open>The rows that the schema file inserts: two users, five students, one session
  dated \<^verbatim>\<open>CURRENT_DATE\<close> (the parameter \<open>d\<close>) and its five records. Timestamps
  are minutes relative to \<^verbatim>\<open>NOW()\<close>.\<close>

definition sample_session :: "date \<Rightarrow> session_row" where
  "sample_session d =
     \<lparr>session_id = 1, teacher_id = Some 1, subject = ''Computer Science'',
      session_section = ''S33'', session_date = d, session_type = Some ''offline'',
      start_time = Some (- 120), end_time = Some (- 60), total_duration = Some 60,
      total_students = Some 5\<rparr>"

definition sample_record ::
  "int \<Rightarrow> string \<Rightarrow> string \<Rightarrow> int \<Rightarrow> rat \<Rightarrow> timestamp option \<Rightarrow> timestamp option \<Rightarrow> record_row" where
  "sample_record rid stu sta n c t1 t2 =
     \<lparr>record_id = rid, ar_session_id = Some 1, ar_student_id = Some stu, status = Some sta,
      detection_count = Some n, confidence_score = Some c,
      first_detection_time = t1, last_detection_time = t2\<rparr>"

definition sample_student :: "string \<Rightarrow> string \<Rightarrow> string \<Rightarrow> student_row" where
  "sample_student i n sec =
     \<lparr>student_id = i, full_name = n, face_embedding = None, student_section = Some sec\<rparr>"

definition sample_store :: "date \<Rightarrow> store" where
  "sample_store d =
     \<lparr>users = [\<lparr>user_id = 1, username = ''teacher'', role = Some ''teacher''\<rparr>,
               \<lparr>user_id = 2, username = ''admin'', role = Some ''admin''\<rparr>],
      students = [sample_student ''STU001'' ''John Doe'' ''S33'',
                  sample_student ''STU002'' ''Jane Smith'' ''S33'',
                  sample_student ''STU003'' ''Mike Johnson'' ''S34'',
                  sample_student ''STU004'' ''Sarah Wilson'' ''S34'',
                  sample_student ''STU005'' ''David Brown'' ''S35''],
      attendance_sessions = [sample_session d],
      attendance_records =
        [sample_record 1 ''STU001'' ''present'' 5 (85 / 100) (Some (- 120)) (Some (- 70)),
         sample_record 2 ''STU002'' ''present'' 4 (78 / 100) (Some (- 110)) (Some (- 75)),
         sample_record 3 ''STU003'' ''partial'' 2 (65 / 100) (Some (- 90)) (Some (- 85)),
         sample_record 4 ''STU004'' ''absent'' 0 0 None None,
         sample_record 5 ''STU005'' ''present'' 6 (92 / 100) (Some (- 115)) (Some (- 65))],
      session_id_seq = 2, record_id_seq = 6\<rparr>"

text \<open>A store for the boundary of the risk threshold: \<open>A\<close> was present in three of
  four sessions, \<open>B\<close> in two of four, \<open>C\<close> has no record, \<open>D\<close> has one record, in a
  session 40 days before day 100, and \<open>E\<close> was absent from the one session recorded
  for her.\<close>

definition risk_session :: "int \<Rightarrow> date \<Rightarrow> session_row" where
  "risk_session i d =
     \<lparr>session_id = i, teacher_id = None, subject = ''Maths'', session_section = ''S33'',
      session_date = d, session_type = None, start_time = None, end_time = None,
      total_duration = None, total_students = Some 2\<rparr>"

definition risk_record :: "int \<Rightarrow> int \<Rightarrow> string \<Rightarrow> string \<Rightarrow> record_row" where
  "risk_record rid sid stu sta =
     \<lparr>record_id = rid, ar_session_id = Some sid, ar_student_id = Some stu, status = Some sta,
      detection_count = None, confidence_score = None,
      first_detection_time = None, last_detection_time = None\<rparr>"

definition risk_store :: store where
  "risk_store =
     \<lparr>users = [],
      students = [sample_student ''A'' ''Ann'' ''S33'', sample_student ''B'' ''Bob'' ''S33'',
                  sample_student ''C'' ''Cy'' ''S33'', sample_student ''D'' ''Di'' ''S33'',
                  sample_student ''E'' ''Eve'' ''S33''],
      attendance_sessions = [risk_session 1 97, risk_session 2 98, risk_session 3 99,
                             risk_session 4 100, risk_session 5 60],
      attendance_records =
        [risk_record 1 1 ''A'' ''present'', risk_record 2 1 ''B'' ''present'',
         risk_record 3 2 ''A'' ''present'', risk_record 4 2 ''B'' ''partial'',
         risk_record 5 3 ''A'' ''present'', risk_record 6 3 ''B'' ''present'',
         risk_record 7 4 ''A'' ''absent'', risk_record 8 4 ''B'' ''absent'',
         risk_record 9 5 ''D'' ''absent'', risk_record 10 4 ''E'' ''absent''],
      session_id_seq = 6, record_id_seq = 11\<rparr>"

text \<open>The sample store with one more session, dated \<open>d\<close>, that has no record.\<close>

definition sample_store_idle :: "date \<Rightarrow> store" where
  "sample_store_idle d =
     (sample_store d)\<lparr>attendance_sessions := [sample_session d, risk_session 2 d],
                       session_id_seq := 3\<rparr>"

text \<open>A request of the teacher with key 1 on day \<open>d\<close>, for the subject Physics
  and the given records, and a record for a student with a status.\<close>

definition demo_ctx :: "date \<Rightarrow> request_ctx" where
  "demo_ctx d = \<lparr>userId = Some 1, today = d\<rparr>"

definition demo_record :: "string \<Rightarrow> string \<Rightarrow> attendance_record" where
  "demo_record stu sta =
     \<lparr>studentId = Some stu, rec_status = Some sta, detectionCount = Some 3,
      confidenceScore = Some (8 / 10), firstDetectionTime = None, lastDetectionTime = None\<rparr>"

definition demo_body :: "attendance_record list \<Rightarrow> save_body" where
  "demo_body recs =
     \<lparr>sessionData = Some \<lparr>startTime = Some 0, endTime = Some 50, duration = Some 50\<rparr>,
      attendanceRecords = Some recs, body_subject = Some ''Physics'',
      body_section = Undefined, sessionType = Undefined\<rparr>"

section \<open>The recorder's statements\<close>

lemma session_row_of_Inr:
  "session_row_of st sid t sub sec d ty s e dur tot = Inr row \<Longrightarrow>
     session_id row = sid \<and> total_students row = tot \<and> session_date row = d \<and>
     teacher_id row = t \<and> int4 sid \<and>
     sid \<notin> set (map session_id (attendance_sessions st))"
  by (auto simp: session_row_of_def split: if_splits option.splits prod.splits)

lemma insert_session_Inl:
  "insert_session st t sub sec d ty s e dur tot = (Inl err, st1) \<Longrightarrow>
     users st1 = users st \<and> students st1 = students st \<and>
     attendance_sessions st1 = attendance_sessions st \<and>
     attendance_records st1 = attendance_records st \<and>
     session_id_seq st \<le> session_id_seq st1 \<and> record_id_seq st1 = record_id_seq st"
  by (auto simp: insert_session_def Let_def split: sum.splits if_splits)

lemma insert_session_Inr:
  "insert_session st t sub sec d ty s e dur tot = (Inr sid, st1) \<Longrightarrow>
     sid = session_id_seq st \<and>
     (\<exists>row. session_row_of st sid t sub sec d ty s e dur tot = Inr row \<and>
        st1 = st\<lparr>session_id_seq := session_id_seq st + 1,
                 attendance_sessions := attendance_sessions st @ [row]\<rparr>)"
  by (auto simp: insert_session_def Let_def split: sum.splits)

lemma insert_record_Some:
  "insert_record st sid r = (Some err, st1) \<Longrightarrow>
     users st1 = users st \<and> students st1 = students st \<and>
     attendance_sessions st1 = attendance_sessions st \<and>
     attendance_records st1 = attendance_records st \<and>
     session_id_seq st1 = session_id_seq st \<and> record_id_seq st \<le> record_id_seq st1"
  by (auto simp: insert_record_def Let_def split: sum.splits if_splits)

lemma record_row_of_Inr:
  "record_row_of st rid sid r = Inr row \<Longrightarrow> row = record_values rid sid r"
  by (auto simp: record_row_of_def split: if_splits)

lemma insert_record_None:
  "insert_record st sid r = (None, st1) \<Longrightarrow>
     st1 = st\<lparr>record_id_seq := record_id_seq st + 1,
              attendance_records := attendance_records st @ [record_values (record_id_seq st) sid r]\<rparr>"
  by (auto simp: insert_record_def Let_def split: sum.splits dest: record_row_of_Inr)

lemma insert_records_frame:
  "insert_records st sid rs = (res, st') \<Longrightarrow>
     users st' = users st \<and> students st' = students st \<and>
     attendance_sessions st' = attendance_sessions st \<and> session_id_seq st' = session_id_seq st"
proof (induction rs arbitrary: st)
  case Nil
  then show ?case by simp
next
  case (Cons r rs)
  show ?case
  proof (cases "insert_record st sid r")
    case (Pair e st1)
    show ?thesis
    proof (cases e)
      case None
      with Pair Cons.prems have "insert_records st1 sid rs = (res, st')" by simp
      from Cons.IH[OF this] insert_record_None[OF Pair[unfolded None]] show ?thesis by simp
    next
      case (Some err)
      with Pair Cons.prems have "st' = st1" by simp
      with insert_record_Some[OF Pair[unfolded Some]] show ?thesis by simp
    qed
  qed
qed

lemma insert_records_None:
  "insert_records st sid rs = (None, st') \<Longrightarrow>
     attendance_records st' = attendance_records st @ rows_from (record_id_seq st) sid rs \<and>
     record_id_seq st' = record_id_seq st + int (length rs)"
proof (induction rs arbitrary: st)
  case Nil
  then show ?case by simp
next
  case (Cons r rs)
  show ?case
  proof (cases "insert_record st sid r")
    case (Pair e st1)
    show ?thesis
    proof (cases e)
      case None
      with Pair Cons.prems have "insert_records st1 sid rs = (None, st')" by simp
      from Cons.IH[OF this] insert_record_None[OF Pair[unfolded None]] show ?thesis by simp
    next
      case (Some err)
      with Pair Cons.prems show ?thesis by simp
    qed
  qed
qed


lemma rollback_tables: "tables (rollback st st') = tables st"
  by (simp add: rollback_def tables_def)

lemma save_Inl_tables:
  assumes "save ctx body st = (Inl err, st')"
  shows "tables st' = tables st"
  using assms
  by (auto simp: save_def rollback_tables split: option.splits if_splits prod.splits sum.splits)

lemma save_Inr_store:
  assumes "save ctx body st = (Inr sid, st')"
  shows "\<exists>sd recs row. sessionData body = Some sd \<and> attendanceRecords body = Some recs \<and>
           \<not> falsy_str (body_subject body) \<and>
           sid = session_id_seq st \<and>
           session_row_of st sid (userId ctx)
             (body_subject body) (js_default ''S33'' (body_section body)) (today ctx)
             (js_default ''offline'' (sessionType body)) (startTime sd) (endTime sd) (duration sd)
             (Some (int (length recs))) = Inr row \<and>
           users st' = users st \<and> students st' = students st \<and>
           attendance_sessions st' = attendance_sessions st @ [row] \<and>
           attendance_records st' =
             attendance_records st @ rows_from (record_id_seq st) sid recs \<and>
           session_id_seq st' = session_id_seq st + 1 \<and>
           record_id_seq st' = record_id_seq st + int (length recs)"
proof -
  from assms obtain sd recs where sd: "sessionData body = Some sd"
    and recs: "attendanceRecords body = Some recs"
    and subj: "\<not> falsy_str (body_subject body)"
    by (auto simp: save_def split: option.splits if_splits)
  let ?ins = "insert_session st (userId ctx) (body_subject body)
      (js_default ''S33'' (body_section body)) (today ctx)
      (js_default ''offline'' (sessionType body)) (startTime sd) (endTime sd) (duration sd)
      (Some (int (length recs)))"
  from assms sd recs subj obtain st1 where ins: "?ins = (Inr sid, st1)"
    and loop: "insert_records st1 sid recs = (None, st')"
    by (auto simp: save_def split: prod.splits sum.splits option.splits)
  from insert_session_Inr[OF ins] obtain row where sid: "sid = session_id_seq st"
    and row: "session_row_of st sid (userId ctx)
             (body_subject body) (js_default ''S33'' (body_section body)) (today ctx)
             (js_default ''offline'' (sessionType body)) (startTime sd) (endTime sd) (duration sd)
             (Some (int (length recs))) = Inr row"
    and st1: "st1 = st\<lparr>session_id_seq := session_id_seq st + 1,
                 attendance_sessions := attendance_sessions st @ [row]\<rparr>"
    by blast
  from insert_records_frame[OF loop] insert_records_None[OF loop] st1
  have "users st' = users st \<and> students st' = students st \<and>
           attendance_sessions st' = attendance_sessions st @ [row] \<and>
           attendance_records st' =
             attendance_records st @ rows_from (record_id_seq st) sid recs \<and>
           session_id_seq st' = session_id_seq st + 1 \<and>
           record_id_seq st' = record_id_seq st + int (length recs)"
    by simp
  with sd recs subj sid row show ?thesis by blast
qed

lemmas demo_defs = demo_ctx_def demo_body_def demo_record_def sample_store_def sample_session_def
  sample_record_def sample_student_def

lemmas save_eval = save_def insert_session_def session_row_of_def insert_record_def
  record_row_of_def record_values_def rollback_def js_default_def falsy_str_def fit_def
  fit_decimal_def too_long_def varchar_def decimal_4_3_def round_half_away_def int4_opt_def
  int4_def fk_ok_def tables_def draws_key_def Let_def

section \<open>Accepted requests and the store's invariant\<close>

lemma fit_Some_D: "fit n v = Some y \<Longrightarrow> \<exists>x. v = Some x"
  by (cases v) (simp_all add: fit_def)

lemma session_row_of_Inr_accepts:
  "session_row_of st sid t sub sec d ty s e dur tot = Inr row \<Longrightarrow>
     session_accepts (map user_id (users st)) t sub sec ty dur tot"
  by (auto simp: session_row_of_def session_accepts_def too_long_def
      split: if_splits option.splits dest: fit_Some_D)

lemma session_row_of_accepts:
  assumes "session_accepts (map user_id (users st)) t sub sec ty dur tot"
    and "sid \<notin> set (map session_id (attendance_sessions st))"
    and "int4 sid"
  shows "\<exists>row. session_row_of st sid t sub sec d ty s e dur tot = Inr row"
  using assms
  by (auto simp: session_row_of_def session_accepts_def too_long_def split: option.splits)

lemma record_row_of_iff:
  "record_row_of st rid sid r = Inr row \<longleftrightarrow>
     record_accepts (map student_id (students st)) r \<and> int4 rid \<and>
     rid \<notin> set (map record_id (attendance_records st)) \<and>
     sid \<in> set (map session_id (attendance_sessions st)) \<and>
     row = record_values rid sid r"
  by (auto simp: record_row_of_def record_accepts_def)

lemma insert_record_None_iff:
  "(\<exists>st1. insert_record st sid r = (None, st1)) \<longleftrightarrow>
     record_accepts (map student_id (students st)) r \<and> int4 (record_id_seq st) \<and>
     record_id_seq st \<notin> set (map record_id (attendance_records st)) \<and>
     sid \<in> set (map session_id (attendance_sessions st))"
proof -
  have "(\<exists>st1. insert_record st sid r = (None, st1)) \<longleftrightarrow>
          (\<exists>row. record_row_of st (record_id_seq st) sid r = Inr row)"
    by (auto simp: insert_record_def Let_def split: sum.splits)
  then show ?thesis by (simp add: record_row_of_iff)
qed

lemma set_rows_from:
  "row \<in> set (rows_from rid sid rs) \<Longrightarrow>
     ar_session_id row = Some sid \<and> rid \<le> record_id row \<and> record_id row < rid + int (length rs)"
proof (induction rs arbitrary: rid)
  case Nil
  then show ?case by simp
next
  case (Cons r rs)
  from Cons.prems have "row = record_values rid sid r \<or> row \<in> set (rows_from (rid + 1) sid rs)"
    by simp
  then show ?case
  proof
    assume "row = record_values rid sid r"
    then show ?thesis by (simp add: record_values_def)
  next
    assume "row \<in> set (rows_from (rid + 1) sid rs)"
    from Cons.IH[OF this] show ?thesis by simp
  qed
qed

lemma distinct_rows_from: "distinct (map record_id (rows_from rid sid rs))"
proof (induction rs arbitrary: rid)
  case Nil
  then show ?case by simp
next
  case (Cons r rs)
  have "record_id (record_values rid sid r) \<notin> record_id ` set (rows_from (rid + 1) sid rs)"
  proof
    assume "record_id (record_values rid sid r) \<in> record_id ` set (rows_from (rid + 1) sid rs)"
    then obtain row where "row \<in> set (rows_from (rid + 1) sid rs)"
      and "record_id row = record_id (record_values rid sid r)" by auto
    with set_rows_from[of row "rid + 1" sid rs] show False
      by (simp add: record_values_def)
  qed
  with Cons.IH[of "rid + 1"] show ?case by simp
qed

lemma length_rows_from: "length (rows_from rid sid rs) = length rs"
  by (induction rs arbitrary: rid) simp_all

lemma status_rows_from:
  "map status (rows_from rid sid rs) = map (\<lambda>r. fit 20 (rec_status r)) rs"
  by (induction rs arbitrary: rid) (simp_all add: record_values_def)

lemma insert_records_accepts:
  "insert_records st sid rs = (None, st') \<Longrightarrow>
     list_all (record_accepts (map student_id (students st))) rs"
proof (induction rs arbitrary: st)
  case Nil
  then show ?case by simp
next
  case (Cons r rs)
  from Cons.prems obtain st1 where one: "insert_record st sid r = (None, st1)"
    and rest: "insert_records st1 sid rs = (None, st')"
    by (auto split: prod.splits option.splits)
  from one have "record_accepts (map student_id (students st)) r"
    using insert_record_None_iff[of st sid r] by blast
  moreover from insert_record_None[OF one] have "students st1 = students st" by simp
  ultimately show ?case using Cons.IH[OF rest] by simp
qed

lemma insert_records_succeeds:
  assumes "list_all (record_accepts (map student_id (students st))) rs"
    and "sid \<in> set (map session_id (attendance_sessions st))"
    and "\<forall>r \<in> set (attendance_records st). record_id r < record_id_seq st"
    and "- 2147483648 \<le> record_id_seq st"
    and "record_id_seq st + int (length rs) \<le> 2147483648"
  shows "\<exists>st'. insert_records st sid rs = (None, st')"
  using assms
proof (induction rs arbitrary: st)
  case Nil
  then show ?case by simp
next
  case (Cons r rs)
  from Cons.prems have "record_id_seq st \<notin> set (map record_id (attendance_records st))"
    by auto
  moreover from Cons.prems(4,5) have "int4 (record_id_seq st)" by (simp add: int4_def)
  ultimately obtain st1 where one: "insert_record st sid r = (None, st1)"
    using Cons.prems insert_record_None_iff[of st sid r] by auto
  note st1 = insert_record_None[OF one]
  have "list_all (record_accepts (map student_id (students st1))) rs"
    using Cons.prems(1) st1 by simp
  moreover have "sid \<in> set (map session_id (attendance_sessions st1))"
    using Cons.prems(2) st1 by simp
  moreover have "\<forall>r \<in> set (attendance_records st1). record_id r < record_id_seq st1"
    using Cons.prems(3) st1 by (auto simp: record_values_def)
  moreover have "- 2147483648 \<le> record_id_seq st1"
    and "record_id_seq st1 + int (length rs) \<le> 2147483648"
    using Cons.prems(4,5) st1 by simp_all
  ultimately obtain st' where "insert_records st1 sid rs = (None, st')"
    using Cons.IH[of st1] by blast
  with one show ?case by simp
qed

lemma insert_records_seq_mono:
  "insert_records st sid rs = (res, st') \<Longrightarrow> record_id_seq st \<le> record_id_seq st'"
proof (induction rs arbitrary: st)
  case Nil
  then show ?case by simp
next
  case (Cons r rs)
  show ?case
  proof (cases "insert_record st sid r")
    case (Pair e st1)
    show ?thesis
    proof (cases e)
      case None
      with Pair Cons.prems have "insert_records st1 sid rs = (res, st')" by simp
      from Cons.IH[OF this] insert_record_None[OF Pair[unfolded None]] show ?thesis by simp
    next
      case (Some err)
      with Pair Cons.prems have "st' = st1" by simp
      with insert_record_Some[OF Pair[unfolded Some]] show ?thesis by simp
    qed
  qed
qed

lemma save_Inl_seqs:
  assumes "save ctx body st = (Inl err, st')"
  shows "session_id_seq st \<le> session_id_seq st' \<and> record_id_seq st \<le> record_id_seq st'"
proof (cases "sessionData body = None \<or> attendanceRecords body = None \<or> falsy_str (body_subject body)")
  case True
  with assms have "st' = st" by (auto simp: save_def split: option.splits)
  then show ?thesis by simp
next
  case False
  then obtain sd recs where sd: "sessionData body = Some sd"
    and recs: "attendanceRecords body = Some recs" and subj: "\<not> falsy_str (body_subject body)"
    by auto
  let ?ins = "insert_session st (userId ctx) (body_subject body)
      (js_default ''S33'' (body_section body)) (today ctx)
      (js_default ''offline'' (sessionType body)) (startTime sd) (endTime sd) (duration sd)
      (Some (int (length recs)))"
  show ?thesis
  proof (cases ?ins)
    case (Pair res st1)
    show ?thesis
    proof (cases res)
      case (Inl e)
      with Pair sd recs subj assms have "st' = rollback st st1" by (simp add: save_def)
      with insert_session_Inl[OF Pair[unfolded Inl]] show ?thesis by (simp add: rollback_def)
    next
      case (Inr sid)
      note st1 = insert_session_Inr[OF Pair[unfolded Inr]]
      show ?thesis
      proof (cases "insert_records st1 sid recs")
        case loop: (Pair e st2)
        with Pair Inr sd recs subj assms have "st' = rollback st st2"
          by (auto simp: save_def split: option.splits)
        with insert_records_seq_mono[OF loop] insert_records_frame[OF loop] st1
        show ?thesis by (auto simp: rollback_def)
      qed
    qed
  qed
qed

lemma wf_store_save:
  assumes "wf_store st"
  shows "wf_store (snd (save ctx body st))"
proof (cases "save ctx body st")
  case (Pair res st')
  show ?thesis
  proof (cases res)
    case (Inl err)
    from save_Inl_tables[OF Pair[unfolded Inl]] save_Inl_seqs[OF Pair[unfolded Inl]] assms
    have "wf_store st'" by (fastforce simp: wf_store_def keys_unique_def tables_def)
    with Pair show ?thesis by simp
  next
    case (Inr sid)
    from save_Inr_store[OF Pair[unfolded Inr]] obtain recs row where
      sid: "sid = session_id_seq st" and row: "session_id row = sid"
      and stu: "students st' = students st"
      and ses: "attendance_sessions st' = attendance_sessions st @ [row]"
      and rec: "attendance_records st' =
                  attendance_records st @ rows_from (record_id_seq st) sid recs"
      and sseq: "session_id_seq st' = session_id_seq st + 1"
      and rseq: "record_id_seq st' = record_id_seq st + int (length recs)"
      by (auto dest: session_row_of_Inr)
    have 1: "distinct (map session_id (attendance_sessions st'))"
      using assms ses row sid by (auto simp: wf_store_def keys_unique_def)
    have 2: "distinct (map record_id (attendance_records st'))"
      using assms rec distinct_rows_from[of "record_id_seq st" sid recs]
        set_rows_from[of _ "record_id_seq st" sid recs]
      by (fastforce simp: wf_store_def keys_unique_def)
    have 3: "\<forall>s \<in> set (attendance_sessions st'). session_id s < session_id_seq st'"
      using assms ses row sid sseq by (auto simp: wf_store_def keys_unique_def)
    have 4: "\<forall>r \<in> set (attendance_records st'). record_id r < record_id_seq st'"
      using assms rec rseq set_rows_from[of _ "record_id_seq st" sid recs]
      by (fastforce simp: wf_store_def keys_unique_def)
    have 5: "\<forall>r \<in> set (attendance_records st').
        fk_ok (ar_session_id r) (map session_id (attendance_sessions st'))"
    proof
      fix r assume "r \<in> set (attendance_records st')"
      with rec have "r \<in> set (attendance_records st) \<or>
          r \<in> set (rows_from (record_id_seq st) sid recs)" by auto
      then show "fk_ok (ar_session_id r) (map session_id (attendance_sessions st'))"
      proof
        assume "r \<in> set (attendance_records st)"
        with assms have "fk_ok (ar_session_id r) (map session_id (attendance_sessions st))"
          by (simp add: wf_store_def keys_unique_def)
        with ses show ?thesis by (auto simp: fk_ok_def split: option.splits)
      next
        assume "r \<in> set (rows_from (record_id_seq st) sid recs)"
        from set_rows_from[OF this] ses row show ?thesis by (simp add: fk_ok_def)
      qed
    qed
    from assms stu 1 2 3 4 5 have "wf_store st'" by (simp add: wf_store_def keys_unique_def)
    with Pair show ?thesis by simp
  qed
qed

lemma student_row_of_Inr:
  "student_row_of st sid name emb sec = Inr row \<Longrightarrow>
     student_id row \<notin> set (map student_id (students st))"
  by (auto simp: student_row_of_def split: if_splits option.splits)

lemma enroll_store:
  "snd (enroll body st) = st \<or>
   (\<exists>row. student_id row \<notin> set (map student_id (students st)) \<and>
          snd (enroll body st) = st\<lparr>students := students st @ [row]\<rparr>)"
proof (cases "student_row_of st (en_studentId body) (en_fullName body)
                   (en_faceEmbedding body) (js_default ''S33'' (en_section body))")
  case (Inl err)
  then show ?thesis by (simp add: enroll_def)
next
  case (Inr row)
  from student_row_of_Inr[OF Inr] Inr show ?thesis
    by (cases "snd (enroll body st) = st") (auto simp: enroll_def split: if_splits)
qed

lemma wf_store_step:
  assumes "wf_store st"
  shows "wf_store (step st rq)"
proof (cases rq)
  case (Save ctx body)
  with wf_store_save[OF assms] show ?thesis by simp
next
  case (Enroll body)
  from enroll_store[of body st] assms have "wf_store (snd (enroll body st))"
    by (auto simp: wf_store_def keys_unique_def)
  with Enroll show ?thesis by simp
qed

lemma save_Inr_accepted:
  assumes ok: "save ctx body st = (Inr sid, st')"
  shows "\<not> falsy_str (body_subject body) \<and> request_accepted ctx body st"
proof -
  from ok obtain sd recs where sd: "sessionData body = Some sd"
    and recs: "attendanceRecords body = Some recs"
    and subj: "\<not> falsy_str (body_subject body)"
    by (auto simp: save_def split: option.splits if_splits)
  let ?ins = "insert_session st (userId ctx) (body_subject body)
      (js_default ''S33'' (body_section body)) (today ctx)
      (js_default ''offline'' (sessionType body)) (startTime sd) (endTime sd) (duration sd)
      (Some (int (length recs)))"
  from ok sd recs subj obtain st1 where ins: "?ins = (Inr sid, st1)"
    and loop: "insert_records st1 sid recs = (None, st')"
    by (auto simp: save_def split: prod.splits sum.splits option.splits)
  from insert_session_Inr[OF ins] obtain row where
    row: "session_row_of st sid (userId ctx)
             (body_subject body) (js_default ''S33'' (body_section body)) (today ctx)
             (js_default ''offline'' (sessionType body)) (startTime sd) (endTime sd) (duration sd)
             (Some (int (length recs))) = Inr row"
    and st1: "students st1 = students st"
    by auto
  from row have "session_accepts (map user_id (users st)) (userId ctx) (body_subject body)
            (js_default ''S33'' (body_section body)) (js_default ''offline'' (sessionType body))
            (duration sd) (Some (int (length recs)))"
    using session_row_of_Inr_accepts[OF row] by simp
  moreover from insert_records_accepts[OF loop] st1
  have "list_all (record_accepts (map student_id (students st))) recs" by simp
  ultimately show ?thesis
    using sd recs subj by (simp add: request_accepted_def)
qed

lemma save_succeeds:
  assumes "wf_store st" and recs: "attendanceRecords body = Some recs"
    and subj: "\<not> falsy_str (body_subject body)"
    and h: "request_accepted ctx body st"
    and keys: "keys_available st 1 (length recs)"
  shows "\<exists>sid st'. save ctx body st = (Inr sid, st')"
proof -
  from h recs obtain sd where sd: "sessionData body = Some sd"
    and acc: "session_accepts (map user_id (users st)) (userId ctx) (body_subject body)
            (js_default ''S33'' (body_section body)) (js_default ''offline'' (sessionType body))
            (duration sd) (Some (int (length recs)))"
    and racc: "list_all (record_accepts (map student_id (students st))) recs"
    by (auto simp: request_accepted_def split: option.splits)
  have fresh: "session_id_seq st \<notin> set (map session_id (attendance_sessions st))"
    using assms(1) by (auto simp: wf_store_def keys_unique_def)
  from keys have range: "int4 (session_id_seq st)"
    by (simp add: keys_available_def int4_def)
  from session_row_of_accepts[OF acc fresh range, where d = "today ctx" and s = "startTime sd"
      and e = "endTime sd"] obtain row where
    row: "session_row_of st (session_id_seq st) (userId ctx)
             (body_subject body) (js_default ''S33'' (body_section body)) (today ctx)
             (js_default ''offline'' (sessionType body)) (startTime sd) (endTime sd) (duration sd)
             (Some (int (length recs))) = Inr row"
    by blast
  let ?st1 = "st\<lparr>session_id_seq := session_id_seq st + 1,
                 attendance_sessions := attendance_sessions st @ [row]\<rparr>"
  have ins: "insert_session st (userId ctx) (body_subject body)
      (js_default ''S33'' (body_section body)) (today ctx)
      (js_default ''offline'' (sessionType body)) (startTime sd) (endTime sd) (duration sd)
      (Some (int (length recs))) = (Inr (session_id_seq st), ?st1)"
    using row by (simp add: insert_session_def Let_def)
  have "session_id row = session_id_seq st"
    using session_row_of_Inr[OF row] by simp
  then have "session_id_seq st \<in> set (map session_id (attendance_sessions ?st1))" by simp
  moreover have "list_all (record_accepts (map student_id (students ?st1))) recs"
    using racc by simp
  moreover have "\<forall>r \<in> set (attendance_records ?st1). record_id r < record_id_seq ?st1"
    using assms(1) by (simp add: wf_store_def keys_unique_def)
  moreover have "- 2147483648 \<le> record_id_seq ?st1"
    and "record_id_seq ?st1 + int (length recs) \<le> 2147483648"
    using keys by (simp_all add: keys_available_def)
  ultimately obtain st' where "insert_records ?st1 (session_id_seq st) recs = (None, st')"
    using insert_records_succeeds[of ?st1 recs "session_id_seq st"] by blast
  with ins sd recs subj have "save ctx body st = (Inr (session_id_seq st), st')"
    by (simp add: save_def)
  then show ?thesis by blast
qed

lemma no_future_sessions_save:
  assumes "no_future_sessions cur st" and "today ctx \<le> cur"
  shows "no_future_sessions cur (snd (save ctx body st))"
proof (cases "save ctx body st")
  case (Pair res st')
  show ?thesis
  proof (cases res)
    case (Inl err)
    from save_Inl_tables[OF Pair[unfolded Inl]] assms(1) Pair show ?thesis
      by (simp add: no_future_sessions_def tables_def)
  next
    case (Inr sid)
    from save_Inr_store[OF Pair[unfolded Inr]] obtain row where
      "attendance_sessions st' = attendance_sessions st @ [row]" "session_date row = today ctx"
      by (auto dest: session_row_of_Inr)
    with assms Pair show ?thesis by (simp add: no_future_sessions_def)
  qed
qed

section \<open>Properties of the Session Recorder\<close>

lemma unenrolled_not_accepted:
  assumes "studentId r = Some x" and "take 50 x \<notin> set ss"
  shows "\<not> record_accepts ss r"
proof (cases "length x \<le> 50")
  case True
  with assms show ?thesis
    by (simp add: record_accepts_def fit_def varchar_def fk_ok_def)
next
  case False
  with assms show ?thesis
    by (simp add: record_accepts_def fit_def varchar_def fk_ok_def too_long_def)
qed

lemma save_rejected_record:
  assumes "sessionData body \<noteq> None" and "\<not> falsy_str (body_subject body)"
    and "attendanceRecords body = Some rs" and "r \<in> set rs"
    and "\<not> record_accepts (map student_id (students st)) r"
  shows "fst (save ctx body st) = Inl PersistenceError"
proof -
  from assms(1) obtain sd where sd: "sessionData body = Some sd" by auto
  let ?ins = "insert_session st (userId ctx) (body_subject body)
      (js_default ''S33'' (body_section body)) (today ctx)
      (js_default ''offline'' (sessionType body)) (startTime sd) (endTime sd) (duration sd)
      (Some (int (length rs)))"
  show ?thesis
  proof (cases ?ins)
    case (Pair res st1)
    show ?thesis
    proof (cases res)
      case (Inl err)
      with Pair sd assms(2,3) show ?thesis by (simp add: save_def)
    next
      case (Inr sid)
      from insert_session_Inr[OF Pair[unfolded Inr]] have stu: "students st1 = students st"
        by auto
      obtain e st2 where loop: "insert_records st1 sid rs = (e, st2)" by force
      have "e \<noteq> None"
      proof
        assume "e = None"
        with loop insert_records_accepts[of st1 sid rs st2] stu
        have "list_all (record_accepts (map student_id (students st))) rs" by simp
        with assms(4,5) show False by (simp add: list_all_iff)
      qed
      then obtain err where "e = Some err" by auto
      with loop Pair Inr sd assms(2,3) show ?thesis by (simp add: save_def)
    qed
  qed
qed

text \<open>
  Claim C1. A call of the recorder ends in one of two ways. Either it answers with the
  new session's key, and the store then holds, after the rows it held before, the new
  session row and one record row for every submitted record, all under that key; or it
  answers with an error, and the four tables are as they were before the call (the
  sequences alone may have moved on). When the request passes the field check and the
  schema does not accept one of its records, the call answers with \<open>PersistenceError\<close>,
  and the session row is not kept either. A record that names a student who is not
  enrolled (no row of \<^verbatim>\<open>students\<close> has the id, as a \<^verbatim>\<open>VARCHAR(50)\<close> holds it) is such
  a record.
\<close>

theorem save_atomic:
  "(case save ctx body st of
      (Inr sid, st') \<Rightarrow>
        (\<exists>recs row. attendanceRecords body = Some recs \<and> session_id row = sid \<and>
           tables st' = (users st, students st, attendance_sessions st @ [row],
                         attendance_records st @ rows_from (record_id_seq st) sid recs))
    | (Inl err, st') \<Rightarrow> tables st' = tables st) \<and>
   (sessionData body \<noteq> None \<and> \<not> falsy_str (body_subject body) \<and>
    attendanceRecords body = Some rs \<and> r \<in> set rs \<and>
    \<not> record_accepts (map student_id (students st)) r \<longrightarrow>
      fst (save ctx body st) = Inl PersistenceError \<and>
      tables (snd (save ctx body st)) = tables st) \<and>
   (studentId r = Some x \<and> take 50 x \<notin> set (map student_id (students st)) \<longrightarrow>
      \<not> record_accepts (map student_id (students st)) r)"
  (is "?all_or_nothing \<and> (?rejected \<longrightarrow> ?fails) \<and> ?unenrolled")
proof -
  have first: ?all_or_nothing
  proof (cases "save ctx body st")
    case (Pair res st')
    show ?thesis
    proof (cases res)
      case (Inl err)
      with Pair save_Inl_tables[of ctx body st err st'] show ?thesis by simp
    next
      case (Inr sid)
      from save_Inr_store[OF Pair[unfolded Inr]] obtain recs row where
        "attendanceRecords body = Some recs" "session_id row = sid"
        "tables st' = (users st, students st, attendance_sessions st @ [row],
                         attendance_records st @ rows_from (record_id_seq st) sid recs)"
        by (auto simp: tables_def dest: session_row_of_Inr)
      with Pair Inr show ?thesis by auto
    qed
  qed
  have second: ?fails if h: ?rejected
  proof -
    from h save_rejected_record[of body rs r st ctx]
    have err: "fst (save ctx body st) = Inl PersistenceError" by blast
    then have "save ctx body st = (Inl PersistenceError, snd (save ctx body st))"
      by (simp add: prod_eq_iff)
    from save_Inl_tables[OF this] err show ?thesis by simp
  qed
  have third: ?unenrolled
    using unenrolled_not_accepted[of r x "map student_id (students st)"] by blast
  from first second third show ?thesis by blast
qed

theorem save_atomic_witness:
  "sessionData (demo_body [demo_record ''STU001'' ''present'', demo_record ''STU999'' ''present'']) \<noteq> None \<and>
   body_subject (demo_body [demo_record ''STU001'' ''present'', demo_record ''STU999'' ''present''])
     = Some ''Physics'' \<and>
   studentId (demo_record ''STU999'' ''present'') = Some ''STU999'' \<and>
   take 50 ''STU999'' \<notin> set (map student_id (students (sample_store 100))) \<and>
   fst (save (demo_ctx 100)
          (demo_body [demo_record ''STU001'' ''present'', demo_record ''STU999'' ''present''])
          (sample_store 100)) = Inl PersistenceError \<and>
   tables (snd (save (demo_ctx 100)
          (demo_body [demo_record ''STU001'' ''present'', demo_record ''STU999'' ''present''])
          (sample_store 100))) = tables (sample_store 100)"
  using save_atomic [where ctx = "demo_ctx 100"
      and body = "demo_body [demo_record ''STU001'' ''present'', demo_record ''STU999'' ''present'']"
      and st = "sample_store 100"
      and rs = "[demo_record ''STU001'' ''present'', demo_record ''STU999'' ''present'']"
      and r = "demo_record ''STU999'' ''present''" and x = "''STU999''"]
  by (simp add: demo_defs falsy_str_def)

lemma save_ValidationError_iff:
  "fst (save ctx body st) = Inl ValidationError \<longleftrightarrow>
     sessionData body = None \<or> attendanceRecords body = None \<or> falsy_str (body_subject body)"
  by (auto simp: save_def split: option.splits prod.splits sum.splits)

lemma request_accepted_cong:
  "users st' = users st \<Longrightarrow> students st' = students st \<Longrightarrow>
     request_accepted ctx body st' = request_accepted ctx body st"
  by (simp add: request_accepted_def split: option.splits)

lemma records_of_fresh:
  assumes "wf_store st"
  shows "records_of st (session_id_seq st) = []"
proof -
  have "ar_session_id r \<noteq> Some (session_id_seq st)" if "r \<in> set (attendance_records st)" for r
  proof
    assume eq: "ar_session_id r = Some (session_id_seq st)"
    from assms that have "fk_ok (ar_session_id r) (map session_id (attendance_sessions st))"
      by (simp add: wf_store_def keys_unique_def)
    with eq obtain s where "s \<in> set (attendance_sessions st)"
      and "session_id s = session_id_seq st" by (auto simp: fk_ok_def)
    with assms show False by (auto simp: wf_store_def keys_unique_def)
  qed
  then show ?thesis by (simp add: records_of_def filter_empty_conv)
qed

lemma filter_rows_from_same:
  "filter (\<lambda>r. ar_session_id r = Some sid) (rows_from rid sid rs) = rows_from rid sid rs"
  using set_rows_from[of _ rid sid rs] by (simp add: filter_id_conv)

lemma filter_rows_from_other:
  "sid' \<noteq> sid \<Longrightarrow> filter (\<lambda>r. ar_session_id r = Some sid') (rows_from rid sid rs) = []"
  using set_rows_from[of _ rid sid rs] by (auto simp: filter_empty_conv)

lemma save_Inr_records_of:
  assumes "wf_store st" and "save ctx body st = (Inr sid, st')"
    and "attendanceRecords body = Some recs"
  shows "records_of st' sid = rows_from (record_id_seq st) sid recs"
proof -
  from save_Inr_store[OF assms(2)] assms(3) have sid: "sid = session_id_seq st"
    and rec: "attendance_records st' =
                  attendance_records st @ rows_from (record_id_seq st) sid recs"
    by auto
  from records_of_fresh[OF assms(1)] sid rec show ?thesis
    by (simp add: records_of_def filter_rows_from_same)
qed

lemma save_Inr_session:
  assumes "wf_store st" and "save ctx body st = (Inr sid, st')"
    and "attendanceRecords body = Some recs"
  shows "\<exists>row. attendance_sessions st' = attendance_sessions st @ [row] \<and>
           session_id row = sid \<and> total_students row = Some (int (length recs)) \<and>
           session_date row = today ctx \<and>
           filter (\<lambda>s. session_id s = sid) (attendance_sessions st') = [row]"
proof -
  from save_Inr_store[OF assms(2)] assms(3) obtain row where sid: "sid = session_id_seq st"
    and ses: "attendance_sessions st' = attendance_sessions st @ [row]"
    and row: "session_id row = sid" "total_students row = Some (int (length recs))"
        "session_date row = today ctx"
    by (auto dest: session_row_of_Inr)
  have "filter (\<lambda>s. session_id s = sid) (attendance_sessions st) = []"
    using assms(1) sid by (auto simp: wf_store_def keys_unique_def filter_empty_conv)
  with ses row show ?thesis by simp
qed

lemma step_keeps_session:
  assumes "wf_store st"
    and "filter (\<lambda>s. session_id s = sid) (attendance_sessions st) = [row]"
  shows "filter (\<lambda>s. session_id s = sid) (attendance_sessions (step st rq)) = [row] \<and>
         records_of (step st rq) sid = records_of st sid"
proof (cases rq)
  case (Enroll body)
  with enroll_store[of body st] assms(2) show ?thesis by (auto simp: records_of_def)
next
  case (Save ctx body)
  show ?thesis
  proof (cases "save ctx body st")
    case (Pair res st')
    show ?thesis
    proof (cases res)
      case (Inl err)
      from save_Inl_tables[OF Pair[unfolded Inl]] Pair Save assms(2) show ?thesis
        by (simp add: tables_def records_of_def)
    next
      case (Inr sid')
      from save_Inr_store[OF Pair[unfolded Inr]] obtain recs row' where
        sid': "sid' = session_id_seq st" and row': "session_id row' = sid'"
        and ses: "attendance_sessions st' = attendance_sessions st @ [row']"
        and rec: "attendance_records st' =
                  attendance_records st @ rows_from (record_id_seq st) sid' recs"
        by (auto dest: session_row_of_Inr)
      have "row \<in> set (filter (\<lambda>s. session_id s = sid) (attendance_sessions st))"
        using assms(2) by simp
      then have "row \<in> set (attendance_sessions st)" and "session_id row = sid" by simp_all
      with assms(1) sid' have ne: "sid \<noteq> sid'" by (auto simp: wf_store_def keys_unique_def)
      with ses row' assms(2) rec Pair Save show ?thesis
        by (simp add: records_of_def filter_rows_from_other)
    qed
  qed
qed

lemma steps_keep_session:
  assumes "wf_store st"
    and "filter (\<lambda>s. session_id s = sid) (attendance_sessions st) = [row]"
  shows "filter (\<lambda>s. session_id s = sid) (attendance_sessions (foldl step st rqs)) = [row] \<and>
         records_of (foldl step st rqs) sid = records_of st sid"
  using assms
proof (induction rqs arbitrary: st)
  case Nil
  then show ?case by simp
next
  case (Cons rq rqs)
  from step_keeps_session[OF Cons.prems, of rq] wf_store_step[OF Cons.prems(1), of rq]
    Cons.IH[of "step st rq"]
  show ?case by simp
qed

text \<open>
  Claim C6 as stated fails: a request that has all three fields, with the empty string
  as its subject, is answered with \<open>ValidationError\<close>, although no field is missing or
  undefined.
\<close>

theorem save_empty_subject_counterexample:
  "sessionData ((demo_body [])\<lparr>body_subject := Some ''''\<rparr>) \<noteq> None \<and>
   attendanceRecords ((demo_body [])\<lparr>body_subject := Some ''''\<rparr>) = Some [] \<and>
   body_subject ((demo_body [])\<lparr>body_subject := Some ''''\<rparr>) = Some '''' \<and>
   fst (save (demo_ctx 100) ((demo_body [])\<lparr>body_subject := Some ''''\<rparr>) (sample_store 100))
     = Inl ValidationError"
  by (simp add: demo_defs save_def falsy_str_def)

text \<open>
  Claim C6, amended. The recorder answers with \<open>ValidationError\<close> exactly when the
  session data or the sequence of records is missing, or the subject is missing or
  empty (the handler tests \<^verbatim>\<open>!subject\<close>). An empty sequence of records is not
  missing: when the store is well formed, the session sequence has a key left, and the
  schema accepts the session's values, a request with no records succeeds, the new
  session has \<open>total_students = 0\<close>, and no record row is added.
\<close>

theorem save_validation:
  "(fst (save ctx body st) = Inl ValidationError \<longleftrightarrow>
      sessionData body = None \<or> attendanceRecords body = None \<or>
      body_subject body = None \<or> body_subject body = Some []) \<and>
   (wf_store st \<and> keys_available st 1 0 \<and> attendanceRecords body = Some [] \<and>
    body_subject body \<noteq> None \<and> body_subject body \<noteq> Some [] \<and>
    request_accepted ctx body st \<longrightarrow>
      (\<exists>row st'. save ctx body st = (Inr (session_id row), st') \<and>
         attendance_sessions st' = attendance_sessions st @ [row] \<and>
         total_students row = Some 0 \<and>
         attendance_records st' = attendance_records st \<and>
         records_of st' (session_id row) = []))"
  (is "?check \<and> (?empty \<longrightarrow> ?created)")
proof -
  have falsy: "falsy_str (body_subject body) \<longleftrightarrow>
      body_subject body = None \<or> body_subject body = Some []"
    by (simp add: falsy_str_def split: option.splits)
  have first: ?check
    using save_ValidationError_iff[of ctx body st] falsy by simp
  have second: ?created if h: ?empty
  proof -
    from h falsy have wf: "wf_store st" and recs: "attendanceRecords body = Some []"
      and subj: "\<not> falsy_str (body_subject body)"
      and acc: "request_accepted ctx body st"
      and keys: "keys_available st 1 (length ([] :: attendance_record list))"
      by simp_all
    from save_succeeds[OF wf recs subj acc keys] obtain sid st' where
      run: "save ctx body st = (Inr sid, st')" by blast
    from save_Inr_session[OF wf run recs] obtain row where
      "attendance_sessions st' = attendance_sessions st @ [row]" "session_id row = sid"
      "total_students row = Some 0"
      by auto
    moreover from save_Inr_store[OF run] recs
    have "attendance_records st' = attendance_records st" by auto
    moreover from save_Inr_records_of[OF wf run recs] have "records_of st' sid = []" by simp
    ultimately show ?thesis using run by blast
  qed
  from first second show ?thesis by blast
qed

theorem save_validation_witness:
  "wf_store (sample_store 100) \<and>
   keys_available (sample_store 100) 1 0 \<and>
   attendanceRecords (demo_body []) = Some [] \<and>
   body_subject (demo_body []) = Some ''Physics'' \<and>
   request_accepted (demo_ctx 100) (demo_body []) (sample_store 100) \<and>
   fst (save (demo_ctx 100) (demo_body []) (sample_store 100)) = Inr 2 \<and>
   map total_students (filter (\<lambda>s. session_id s = 2)
     (attendance_sessions (snd (save (demo_ctx 100) (demo_body []) (sample_store 100))))) = [Some 0] \<and>
   records_of (snd (save (demo_ctx 100) (demo_body []) (sample_store 100))) 2 = []"
  using save_validation [where ctx = "demo_ctx 100" and body = "demo_body []"
      and st = "sample_store 100"]
  by (simp add: demo_defs save_eval wf_store_def keys_unique_def keys_available_def
      request_accepted_def session_accepts_def records_of_def)

text \<open>
  Claim C5 as stated fails: a record whose status is \<open>late\<close> is stored, and the call
  answers with the new session's key.
\<close>

theorem save_unknown_status_counterexample:
  "fst (save (demo_ctx 100) (demo_body [demo_record ''STU001'' ''late'']) (sample_store 100))
     = Inr 2 \<and>
   map status (records_of
     (snd (save (demo_ctx 100) (demo_body [demo_record ''STU001'' ''late'']) (sample_store 100)))
     2) = [Some ''late'']"
  by (simp add: demo_defs save_eval records_of_def)

lemma fit_status_fits: "status_fits r \<Longrightarrow> fit 20 (rec_status r) = rec_status r"
  by (auto simp: status_fits_def fit_def varchar_def split: option.splits)

text \<open>
  Claim C5, amended. The recorder does not look at the status of a record. When the
  store is well formed, the sequences have keys left for one session and for the
  submitted records, the request has its three required fields, every submitted status
  is absent or has at most 20 characters, and the schema accepts the submitted values,
  the call succeeds and stores one row per submitted record, each with exactly the
  status submitted, whether or not that status is one of \<open>present\<close>, \<open>partial\<close>,
  \<open>absent\<close>.
\<close>

theorem save_status_unchecked:
  assumes "wf_store st" and "attendanceRecords body = Some recs"
    and "keys_available st 1 (length recs)"
    and "body_subject body \<noteq> None" and "body_subject body \<noteq> Some []"
    and "\<forall>r \<in> set recs. status_fits r"
    and "request_accepted ctx body st"
  shows "\<exists>sid st'. save ctx body st = (Inr sid, st') \<and>
           length (records_of st' sid) = length recs \<and>
           map status (records_of st' sid) = map rec_status recs"
proof -
  from assms(4,5) have subj: "\<not> falsy_str (body_subject body)"
    by (auto simp: falsy_str_def split: option.splits)
  from save_succeeds[OF assms(1,2) subj assms(7,3)] obtain sid st' where
    run: "save ctx body st = (Inr sid, st')" by blast
  from save_Inr_records_of[OF assms(1) run assms(2)]
  have "records_of st' sid = rows_from (record_id_seq st) sid recs" .
  then have "length (records_of st' sid) = length recs"
    and "map status (records_of st' sid) = map (\<lambda>r. fit 20 (rec_status r)) recs"
    by (simp_all add: length_rows_from status_rows_from)
  moreover from assms(6) have "map (\<lambda>r. fit 20 (rec_status r)) recs = map rec_status recs"
    by (simp add: fit_status_fits)
  ultimately show ?thesis using run by auto
qed

theorem save_status_unchecked_witness:
  "wf_store (sample_store 100) \<and>
   attendanceRecords (demo_body [demo_record ''STU001'' ''late''])
     = Some [demo_record ''STU001'' ''late''] \<and>
   keys_available (sample_store 100) 1 1 \<and>
   body_subject (demo_body [demo_record ''STU001'' ''late'']) = Some ''Physics'' \<and>
   status_fits (demo_record ''STU001'' ''late'') \<and>
   request_accepted (demo_ctx 100) (demo_body [demo_record ''STU001'' ''late''])
     (sample_store 100) \<and>
   rec_status (demo_record ''STU001'' ''late'') = Some ''late'' \<and>
   (\<exists>sid st'. save (demo_ctx 100) (demo_body [demo_record ''STU001'' ''late''])
       (sample_store 100) = (Inr sid, st') \<and>
       length (records_of st' sid) = 1 \<and>
       map status (records_of st' sid) = [Some ''late''])"
proof -
  have wf: "wf_store (sample_store 100)"
    by (simp add: wf_store_def keys_unique_def demo_defs fk_ok_def)
  have recs: "attendanceRecords (demo_body [demo_record ''STU001'' ''late''])
     = Some [demo_record ''STU001'' ''late'']"
    by (simp add: demo_body_def)
  have keys: "keys_available (sample_store 100) 1 (length [demo_record ''STU001'' ''late''])"
    by (simp add: keys_available_def demo_defs)
  then have keys': "keys_available (sample_store 100) 1 1" by simp
  have subj: "body_subject (demo_body [demo_record ''STU001'' ''late'']) = Some ''Physics''"
    by (simp add: demo_body_def)
  have fits: "status_fits (demo_record ''STU001'' ''late'')"
    by (simp add: status_fits_def demo_record_def)
  then have all: "\<forall>r \<in> set [demo_record ''STU001'' ''late'']. status_fits r" by simp
  have acc: "request_accepted (demo_ctx 100) (demo_body [demo_record ''STU001'' ''late''])
     (sample_store 100)"
    by (simp add: demo_defs save_eval request_accepted_def session_accepts_def
        record_accepts_def)
  have st: "rec_status (demo_record ''STU001'' ''late'') = Some ''late''"
    by (simp add: demo_record_def)
  from save_status_unchecked[OF wf recs keys _ _ all acc] subj st
  have "\<exists>sid st'. save (demo_ctx 100) (demo_body [demo_record ''STU001'' ''late''])
       (sample_store 100) = (Inr sid, st') \<and>
       length (records_of st' sid) = 1 \<and>
       map status (records_of st' sid) = [Some ''late'']"
    by simp
  with wf recs keys' subj fits acc st show ?thesis by blast
qed

text \<open>
  Claim C2. After a successful call on a well-formed store, the store has exactly one
  session with the returned key; its \<open>total_students\<close> is the number of submitted
  records, which is the number of record rows stored under that key. This stays so:
  after any further sequence of requests that write to the store (recordings and
  enrolments), that session row is the same and its record rows are the same.
\<close>

theorem total_students_consistent:
  assumes "wf_store st" and "save ctx body st = (Inr sid, st')"
  shows "\<exists>recs row. attendanceRecords body = Some recs \<and>
           filter (\<lambda>s. session_id s = sid) (attendance_sessions st') = [row] \<and>
           total_students row = Some (int (length recs)) \<and>
           length (records_of st' sid) = length recs \<and>
           (\<forall>rqs. filter (\<lambda>s. session_id s = sid)
                     (attendance_sessions (foldl step st' rqs)) = [row] \<and>
                  records_of (foldl step st' rqs) sid = records_of st' sid)"
proof -
  from save_Inr_store[OF assms(2)] obtain recs where
    recs: "attendanceRecords body = Some recs" by blast
  from save_Inr_session[OF assms recs] obtain row where
    row: "filter (\<lambda>s. session_id s = sid) (attendance_sessions st') = [row]"
    and tot: "total_students row = Some (int (length recs))" by blast
  from save_Inr_records_of[OF assms recs]
  have len: "length (records_of st' sid) = length recs"
    by (simp add: length_rows_from)
  from wf_store_save[OF assms(1), of ctx body] assms(2) have wf': "wf_store st'" by simp
  from steps_keep_session[OF wf' row]
  have "\<forall>rqs. filter (\<lambda>s. session_id s = sid)
                     (attendance_sessions (foldl step st' rqs)) = [row] \<and>
                  records_of (foldl step st' rqs) sid = records_of st' sid"
    by blast
  with recs row tot len show ?thesis by blast
qed


lemma wf_sample_store: "wf_store (sample_store d)"
  by (simp add: wf_store_def keys_unique_def demo_defs fk_ok_def)

theorem total_students_consistent_witness:
  "wf_store (sample_store 100) \<and>
   fst (save (demo_ctx 100)
          (demo_body [demo_record ''STU001'' ''present'', demo_record ''STU002'' ''absent''])
          (sample_store 100)) = Inr 2 \<and>
   (\<exists>row. filter (\<lambda>s. session_id s = 2)
       (attendance_sessions (foldl step
          (snd (save (demo_ctx 100)
             (demo_body [demo_record ''STU001'' ''present'', demo_record ''STU002'' ''absent''])
             (sample_store 100)))
          [Save (demo_ctx 101) (demo_body [demo_record ''STU003'' ''present''])])) = [row] \<and>
       total_students row = Some 2) \<and>
   length (records_of (foldl step
          (snd (save (demo_ctx 100)
             (demo_body [demo_record ''STU001'' ''present'', demo_record ''STU002'' ''absent''])
             (sample_store 100)))
          [Save (demo_ctx 101) (demo_body [demo_record ''STU003'' ''present''])]) 2) = 2"
  (is "_ \<and> fst (save ?c ?b ?s) = _ \<and> _ \<and> _")
proof -
  have run: "save ?c ?b ?s = (Inr 2, snd (save ?c ?b ?s))"
    by (simp add: prod_eq_iff demo_defs save_eval)
  have recs: "attendanceRecords ?b
      = Some [demo_record ''STU001'' ''present'', demo_record ''STU002'' ''absent'']"
    by (simp add: demo_body_def)
  have first: "fst (save ?c ?b ?s) = Inr 2"
    by (simp add: demo_defs save_eval)
  let ?rqs = "[Save (demo_ctx 101) (demo_body [demo_record ''STU003'' ''present''])]"
  from total_students_consistent[OF wf_sample_store run] recs obtain row where
    tot: "total_students row = Some 2"
    and len: "length (records_of (snd (save ?c ?b ?s)) 2) = 2"
    and later: "\<forall>rqs. filter (\<lambda>s. session_id s = 2)
                     (attendance_sessions (foldl step (snd (save ?c ?b ?s)) rqs)) = [row] \<and>
           records_of (foldl step (snd (save ?c ?b ?s)) rqs) 2 = records_of (snd (save ?c ?b ?s)) 2"
    by auto
  from later have "filter (\<lambda>s. session_id s = 2)
                     (attendance_sessions (foldl step (snd (save ?c ?b ?s)) ?rqs)) = [row]"
    and "records_of (foldl step (snd (save ?c ?b ?s)) ?rqs) 2 = records_of (snd (save ?c ?b ?s)) 2"
    by blast+
  with tot len have "\<exists>row. filter (\<lambda>s. session_id s = 2)
                     (attendance_sessions (foldl step (snd (save ?c ?b ?s)) ?rqs)) = [row] \<and>
                     total_students row = Some 2"
    and "length (records_of (foldl step (snd (save ?c ?b ?s)) ?rqs) 2) = 2"
    by (blast, metis)
  with wf_sample_store[of 100] first show ?thesis by blast
qed

text \<open>
  Claim C9. When a call succeeds on a well-formed store whose sequences have keys left
  for two sessions and for twice the submitted records, the same call made again on the
  resulting store succeeds too and returns a different key; the store then holds two
  new session rows, one under each key, and under each key as many record rows as were
  submitted, the two sets of record rows having no row in common.
\<close>

theorem save_not_idempotent:
  assumes "wf_store st" and "save ctx body st = (Inr sid1, st1)"
    and "attendanceRecords body = Some recs"
    and "keys_available st 2 (2 * length recs)"
  shows "\<exists>sid2 st2 row1 row2.
           save ctx body st1 = (Inr sid2, st2) \<and> sid2 \<noteq> sid1 \<and>
           attendance_sessions st2 = attendance_sessions st @ [row1, row2] \<and>
           session_id row1 = sid1 \<and> session_id row2 = sid2 \<and>
           length (records_of st2 sid1) = length recs \<and>
           length (records_of st2 sid2) = length recs \<and>
           set (map record_id (records_of st2 sid1))
             \<inter> set (map record_id (records_of st2 sid2)) = {}"
proof -
  note recs = assms(3)
  from save_Inr_store[OF assms(2)] recs have sid1: "sid1 = session_id_seq st"
    and same: "users st1 = users st" "students st1 = students st"
    and seq1: "session_id_seq st1 = session_id_seq st + 1"
    and rseq1: "record_id_seq st1 = record_id_seq st + int (length recs)"
    by auto
  from wf_store_save[OF assms(1), of ctx body] assms(2) have wf1: "wf_store st1" by simp
  from save_Inr_accepted[OF assms(2)]
  have "\<not> falsy_str (body_subject body) \<and> request_accepted ctx body st" .
  with request_accepted_cong[OF same, of ctx body]
  have subj: "\<not> falsy_str (body_subject body)" and acc1: "request_accepted ctx body st1"
    by simp_all
  from assms(4) seq1 rseq1 have keys1: "keys_available st1 1 (length recs)"
    by (simp add: keys_available_def)
  from save_succeeds[OF wf1 recs subj acc1 keys1] obtain sid2 st2 where
    run2: "save ctx body st1 = (Inr sid2, st2)" by blast
  from save_Inr_store[OF run2] have sid2: "sid2 = session_id_seq st1" by blast
  with sid1 seq1 have ne: "sid2 \<noteq> sid1" by simp
  from save_Inr_session[OF assms(1,2) recs] obtain row1 where
    ses1: "attendance_sessions st1 = attendance_sessions st @ [row1]"
    and row1: "session_id row1 = sid1"
    and only1: "filter (\<lambda>s. session_id s = sid1) (attendance_sessions st1) = [row1]"
    by blast
  from save_Inr_session[OF wf1 run2 recs] obtain row2 where
    ses2: "attendance_sessions st2 = attendance_sessions st1 @ [row2]"
    and row2: "session_id row2 = sid2" by blast
  from step_keeps_session[OF wf1 only1, of "Save ctx body"] run2
  have "records_of st2 sid1 = records_of st1 sid1" by simp
  with save_Inr_records_of[OF assms(1,2) recs]
  have len1: "length (records_of st2 sid1) = length recs" by (simp add: length_rows_from)
  from save_Inr_records_of[OF wf1 run2 recs]
  have len2: "length (records_of st2 sid2) = length recs" by (simp add: length_rows_from)
  from wf_store_save[OF wf1, of ctx body] run2 have wf2: "wf_store st2" by simp
  have disj: "set (map record_id (records_of st2 sid1))
             \<inter> set (map record_id (records_of st2 sid2)) = {}"
  proof (rule ccontr)
    assume "\<not> ?thesis"
    then obtain r1 r2 where r1: "r1 \<in> set (records_of st2 sid1)"
      and r2: "r2 \<in> set (records_of st2 sid2)" and eq: "record_id r1 = record_id r2"
      by auto
    from wf2 have "inj_on record_id (set (attendance_records st2))"
      by (simp add: wf_store_def keys_unique_def distinct_map)
    with r1 r2 eq have "r1 = r2" by (auto simp: records_of_def dest: inj_onD)
    with r1 r2 ne show False by (auto simp: records_of_def)
  qed
  from run2 ne ses1 ses2 row1 row2 len1 len2 disj show ?thesis by auto
qed

theorem save_not_idempotent_witness:
  "wf_store (sample_store 100) \<and>
   keys_available (sample_store 100) 2 2 \<and>
   fst (save (demo_ctx 100) (demo_body [demo_record ''STU001'' ''present'']) (sample_store 100))
     = Inr 2 \<and>
   fst (save (demo_ctx 100) (demo_body [demo_record ''STU001'' ''present''])
          (snd (save (demo_ctx 100) (demo_body [demo_record ''STU001'' ''present''])
             (sample_store 100)))) = Inr 3 \<and>
   (\<exists>sid2 st2 row1 row2.
       save (demo_ctx 100) (demo_body [demo_record ''STU001'' ''present''])
          (snd (save (demo_ctx 100) (demo_body [demo_record ''STU001'' ''present''])
             (sample_store 100))) = (Inr sid2, st2) \<and> sid2 \<noteq> 2 \<and>
       attendance_sessions st2 = attendance_sessions (sample_store 100) @ [row1, row2] \<and>
       session_id row1 = 2 \<and> session_id row2 = sid2 \<and>
       length (records_of st2 2) = 1 \<and> length (records_of st2 sid2) = 1)"
  (is "_ \<and> _ \<and> fst (save ?c ?b ?s) = _ \<and> _ \<and> _")
proof -
  have run: "save ?c ?b ?s = (Inr 2, snd (save ?c ?b ?s))"
    by (simp add: prod_eq_iff demo_defs save_eval)
  have again: "fst (save ?c ?b (snd (save ?c ?b ?s))) = Inr 3"
    by (simp add: demo_defs save_eval)
  have recs: "attendanceRecords ?b = Some [demo_record ''STU001'' ''present'']"
    by (simp add: demo_body_def)
  have keys: "keys_available ?s 2 (2 * length [demo_record ''STU001'' ''present''])"
    by (simp add: keys_available_def demo_defs)
  then have keys': "keys_available ?s 2 2" by simp
  from save_not_idempotent[OF wf_sample_store run recs keys]
  have "\<exists>sid2 st2 row1 row2.
       save ?c ?b (snd (save ?c ?b ?s)) = (Inr sid2, st2) \<and> sid2 \<noteq> 2 \<and>
       attendance_sessions st2 = attendance_sessions ?s @ [row1, row2] \<and>
       session_id row1 = 2 \<and> session_id row2 = sid2 \<and>
       length (records_of st2 2) = 1 \<and> length (records_of st2 sid2) = 1"
    by auto
  moreover have "fst (save ?c ?b ?s) = Inr 2"
    by (simp add: demo_defs save_eval)
  ultimately show ?thesis using wf_sample_store[of 100] keys' again by blast
qed

section \<open>Joins and aggregates\<close>

lemma filter_inner_join:
  "filter (\<lambda>(a, b). P a) (inner_join on xs ys) = inner_join on (filter P xs) ys"
  by (induction xs) (auto simp: inner_join_def)

lemma filter_left_join:
  "filter (\<lambda>(a, b). P a) (left_join on xs ys) = left_join on (filter P xs) ys"
  by (induction xs) (auto simp: left_join_def split: list.splits)

lemma inner_join_remove1:
  "filter (on x) ys = [] \<Longrightarrow> inner_join on (remove1 x xs) ys = inner_join on xs ys"
  by (induction xs) (auto simp: inner_join_def)

lemma mset_left_join_remove1:
  "x \<in> set xs \<Longrightarrow> filter (on x) ys = [] \<Longrightarrow>
     mset (left_join on xs ys) = add_mset (x, None) (mset (left_join on (remove1 x xs) ys))"
  by (induction xs) (auto simp: left_join_def)

lemma non_null_map_Some: "non_null (map (\<lambda>x. Some (f x)) xs) = map f xs"
  by (induction xs) simp_all

lemma sql_avg_map_Some:
  "xs \<noteq> [] \<Longrightarrow>
     sql_avg (map (\<lambda>x. Some (f x)) xs) = Some (sum_list (map f xs) / of_nat (length xs))"
  by (simp add: sql_avg_def non_null_map_Some)

lemma of_int_sum_list_map:
  "(of_int (sum_list (map f xs)) :: rat) = sum_list (map (\<lambda>x. of_int (f x)) xs)"
  by (induction xs) simp_all

lemma trend_group_left_join:
  "trend_group cur st d =
     left_join (\<lambda>s ar. ar_session_id ar = Some (session_id s))
       (filter (\<lambda>s. session_date s = d)
          (filter (\<lambda>s. cur - 30 \<le> session_date s) (attendance_sessions st)))
       (attendance_records st)"
  by (simp add: trend_group_def trend_from_def filter_left_join)

lemma trends_row:
  assumes "trend_group cur st d \<noteq> []"
  shows "\<lparr>tr_session_date = d, tr_total_sessions = length (trend_group cur st d),
          tr_attendance_rate =
            Some (of_int (sum_list (map (\<lambda>(s, ar). present_rate ar) (trend_group cur st d)))
                  / of_nat (length (trend_group cur st d)))\<rparr> \<in> set (trends cur st)"
proof -
  from assms obtain p where p: "p \<in> set (trend_group cur st d)"
    by (cases "trend_group cur st d") auto
  then have "p \<in> set (trend_from cur st)" and "session_date (fst p) = d"
    by (auto simp: trend_group_def)
  then have "d \<in> (\<lambda>(s, ar). session_date s) ` set (trend_from cur st)"
    by (force simp: case_prod_unfold)
  then have "d \<in> set (sort (remdups (map (\<lambda>(s, ar). session_date s) (trend_from cur st))))"
    by simp
  moreover have "sql_avg (map (\<lambda>(s, ar). Some (of_int (present_rate ar))) (trend_group cur st d))
      = Some (of_int (sum_list (map (\<lambda>(s, ar). present_rate ar) (trend_group cur st d)))
                  / of_nat (length (trend_group cur st d)))"
    using sql_avg_map_Some[OF assms, of "\<lambda>(s, ar). of_int (present_rate ar)"]
    by (simp add: case_prod_unfold of_int_sum_list_map)
  ultimately show ?thesis
    unfolding trends_def by (simp add: image_iff) 
qed

section \<open>Properties of the Analytics Aggregator\<close>

lemma mset_eq_sum_list_map:
  fixes f :: "'a \<Rightarrow> 'b :: comm_monoid_add"
  shows "mset xs = mset ys \<Longrightarrow> sum_list (map f xs) = sum_list (map f ys)"
  by (metis mset_map sum_mset_sum_list)

lemma collect_map_Inr:
  "(\<forall>k \<in> set ks. f k = Inr (g k)) \<Longrightarrow> collect (map f ks) = Inr (map g ks)"
  by (induction ks) simp_all

lemma risk_group_nonempty:
  assumes "k \<in> set (remdups (map risk_key (risk_from cur st)))"
  shows "risk_group cur st k \<noteq> []"
proof -
  from assms obtain row where "row \<in> set (risk_from cur st)" and "risk_key row = k" by auto
  then have "row \<in> set (risk_group cur st k)" by (simp add: risk_group_def)
  then show ?thesis by auto
qed

lemma risk_row_of_group:
  assumes "k \<in> set (remdups (map risk_key (risk_from cur st)))"
  shows "risk_row_of k (risk_group cur st k) = Inr (group_row cur st k)"
  using risk_group_nonempty[OF assms]
  by (simp add: risk_row_of_def sql_div_def group_row_def)

lemma riskStudents_Inr:
  "riskStudents cur st =
     Inr (sort_key attendance_percentage
            (filter (\<lambda>row. attendance_percentage row < 75)
               (map (group_row cur st) (remdups (map risk_key (risk_from cur st))))))"
proof -
  have "collect (map (\<lambda>k. risk_row_of k (risk_group cur st k))
                      (remdups (map risk_key (risk_from cur st))))
        = Inr (map (group_row cur st) (remdups (map risk_key (risk_from cur st))))"
    by (rule collect_map_Inr) (simp add: risk_row_of_group)
  then show ?thesis by (simp add: riskStudents_def)
qed

text \<open>
  Claim C8. When the pool serves all three queries, the handler answers with one object
  that holds the three results together (the risk query itself never fails: no group is
  empty, so it never divides by zero). When the pool fails to serve one of them, the
  handler answers with \<open>PersistenceError\<close>, which carries no result at all.
\<close>

theorem analytics_all_or_nothing:
  "(served 0 \<and> served 1 \<and> served 2 \<longrightarrow>
      (\<exists>r. riskStudents cur st = Inr r \<and>
           analytics served cur st =
             Inr \<lparr>res_trends = trends cur st, res_engagement = engagement cur st,
                  res_riskStudents = r\<rparr>)) \<and>
   (\<not> (served 0 \<and> served 1 \<and> served 2) \<longrightarrow>
      analytics served cur st = Inl PersistenceError)"
proof -
  obtain r where r: "riskStudents cur st = Inr r"
    using riskStudents_Inr[of cur st] by blast
  show ?thesis
    by (auto simp: analytics_def pool_query_def r)
qed

theorem analytics_all_or_nothing_witness:
  "\<not> ((\<lambda>i. i \<noteq> 1) (0 :: nat) \<and> (\<lambda>i. i \<noteq> 1) (1 :: nat) \<and> (\<lambda>i. i \<noteq> 1) (2 :: nat)) \<and>
   analytics (\<lambda>i. i \<noteq> 1) 100 (sample_store 100) = Inl PersistenceError \<and>
   (\<exists>r. analytics (\<lambda>i. True) 100 (sample_store 100) =
      Inr \<lparr>res_trends = trends 100 (sample_store 100),
           res_engagement = engagement 100 (sample_store 100), res_riskStudents = r\<rparr>)"
  using analytics_all_or_nothing [where served = "\<lambda>i. i \<noteq> 1" and cur = 100
      and st = "sample_store 100"]
    analytics_all_or_nothing [where served = "\<lambda>i. True" and cur = 100
      and st = "sample_store 100"]
  by auto

lemmas analytics_eval = trends_def trend_group_def trend_from_def left_join_def inner_join_def
  sql_avg_def sql_count_def present_rate_def is_present_def engagement_def engagement_group_def
  engagement_from_def

text \<open>
  Claim C3 says that \<open>total_sessions\<close> of a date is the number of distinct sessions on
  that date. The query computes \<^verbatim>\<open>COUNT(*)\<close> over the rows of its left join, which has
  one row for every record of a session. On the sample data of the schema, one session
  on day 100 with five records, three of them \<open>present\<close>, it reports
  \<open>total_sessions = 5\<close> where the store has one session on that date; the rate, 60, is
  the mean over the five joined rows.
\<close>

theorem trends_total_counts_joined_rows:
  "trends 100 (sample_store 100) =
     [\<lparr>tr_session_date = 100, tr_total_sessions = 5, tr_attendance_rate = Some 60\<rparr>] \<and>
   length (filter (\<lambda>s. session_date s = 100) (attendance_sessions (sample_store 100))) = 1"
  by (simp add: analytics_eval demo_defs)

text \<open>
  Claim C10. Let a session of the store be dated within the 30-day window of the trend
  query (not before \<open>cur - 30\<close>) and have no record. The left join of the trend query keeps it as one row whose record is
  \<^verbatim>\<open>NULL\<close>; the trend result has a row for its date, whose \<open>total_sessions\<close> is one more
  than the joined rows that the other sessions of that date give, and whose
  \<open>attendance_rate\<close> is the sum of their rates over that larger count, so the session
  adds one to the count and nothing to the sum. The engagement result is the same as
  in the store without that session.
\<close>

theorem recordless_session_joins:
  assumes "s \<in> set (attendance_sessions st)"
    and "cur - 30 \<le> session_date s"
    and "records_of st (session_id s) = []"
  shows "(s, None) \<in> set (trend_from cur st) \<and>
         (\<exists>row \<in> set (trends cur st).
            tr_session_date row = session_date s \<and>
            tr_total_sessions row =
              Suc (length (trend_group cur (without_session st s) (session_date s))) \<and>
            tr_attendance_rate row =
              Some (of_int (sum_list (map (\<lambda>(s, ar). present_rate ar)
                              (trend_group cur (without_session st s) (session_date s))))
                    / of_nat (Suc (length
                              (trend_group cur (without_session st s) (session_date s)))))) \<and>
         engagement cur (without_session st s) = engagement cur st"
proof -
  let ?on = "\<lambda>s ar. ar_session_id ar = Some (session_id s)"
  let ?d = "session_date s"
  let ?S = "filter (\<lambda>s. session_date s = ?d)
              (filter (\<lambda>s. cur - 30 \<le> session_date s) (attendance_sessions st))"
  let ?g = "trend_group cur st ?d"
  let ?g' = "trend_group cur (without_session st s) ?d"
  from assms(3) have none: "filter (?on s) (attendance_records st) = []"
    by (simp add: records_of_def)
  from assms(1,2) have mem: "s \<in> set ?S" by simp
  have g': "?g' = left_join ?on (remove1 s ?S) (attendance_records st)"
    by (simp add: trend_group_left_join without_session_def filter_remove1)
  have g: "?g = left_join ?on ?S (attendance_records st)"
    by (rule trend_group_left_join)
  have core: "mset (left_join ?on ?S (attendance_records st))
      = add_mset (s, None) (mset (left_join ?on (remove1 s ?S) (attendance_records st)))"
    using mem none by (rule mset_left_join_remove1)
  have ms: "mset ?g = add_mset (s, None) (mset ?g')"
    unfolding g g' by (rule core)
  then have perm: "mset ?g = mset ((s, None) # ?g')" by simp
  from perm have len: "length ?g = Suc (length ?g')"
    using mset_eq_length by fastforce
  from mset_eq_sum_list_map[OF perm, of "\<lambda>(s, ar). present_rate ar"]
  have sum: "sum_list (map (\<lambda>(s, ar). present_rate ar) ?g)
      = sum_list (map (\<lambda>(s, ar). present_rate ar) ?g')"
    by (simp add: present_rate_def)
  from perm have "(s, None) \<in> set ?g" by (metis list.set_intros(1) mset_eq_setD)
  then have first: "(s, None) \<in> set (trend_from cur st)" by (simp add: trend_group_def)
  from len have "?g \<noteq> []" by auto
  from trends_row[OF this] len sum
  have second: "\<exists>row \<in> set (trends cur st).
            tr_session_date row = ?d \<and> tr_total_sessions row = Suc (length ?g') \<and>
            tr_attendance_rate row =
              Some (of_int (sum_list (map (\<lambda>(s, ar). present_rate ar) ?g'))
                    / of_nat (Suc (length ?g')))"
    by (intro bexI[where x = "\<lparr>tr_session_date = ?d, tr_total_sessions = length ?g,
          tr_attendance_rate =
            Some (of_int (sum_list (map (\<lambda>(s, ar). present_rate ar) ?g))
                  / of_nat (length ?g))\<rparr>"]) simp_all
  have "engagement_from cur (without_session st s) = engagement_from cur st"
    by (simp add: engagement_from_def without_session_def inner_join_remove1[where on = ?on and x = s] none)
  then have third: "engagement cur (without_session st s) = engagement cur st"
    by (simp add: engagement_def engagement_group_def)
  from first second third show ?thesis by blast
qed

theorem recordless_session_joins_witness:
  "risk_session 2 100 \<in> set (attendance_sessions (sample_store_idle 100)) \<and>
   (100 :: int) - 30 \<le> session_date (risk_session 2 100) \<and>
   records_of (sample_store_idle 100) (session_id (risk_session 2 100)) = [] \<and>
   without_session (sample_store_idle 100) (risk_session 2 100)
     = (sample_store 100)\<lparr>session_id_seq := 3\<rparr> \<and>
   (risk_session 2 100, None) \<in> set (trend_from 100 (sample_store_idle 100)) \<and>
   trends 100 (sample_store_idle 100) =
     [\<lparr>tr_session_date = 100, tr_total_sessions = 6, tr_attendance_rate = Some 50\<rparr>] \<and>
   engagement 100 (sample_store 100\<lparr>session_id_seq := 3\<rparr>)
     = engagement 100 (sample_store_idle 100)"
proof -
  have 1: "risk_session 2 100 \<in> set (attendance_sessions (sample_store_idle 100))"
    by (simp add: sample_store_idle_def)
  have 2: "(100 :: int) - 30 \<le> session_date (risk_session 2 100)"
    by (simp add: risk_session_def)
  have 3: "records_of (sample_store_idle 100) (session_id (risk_session 2 100)) = []"
    by (simp add: records_of_def sample_store_idle_def demo_defs risk_session_def)
  have 4: "without_session (sample_store_idle 100) (risk_session 2 100)
     = (sample_store 100)\<lparr>session_id_seq := 3\<rparr>"
    by (simp add: without_session_def sample_store_idle_def demo_defs risk_session_def)
  have 5: "trends 100 (sample_store_idle 100) =
     [\<lparr>tr_session_date = 100, tr_total_sessions = 6, tr_attendance_rate = Some 50\<rparr>]"
    by (simp add: analytics_eval sample_store_idle_def demo_defs risk_session_def)
  from recordless_session_joins[OF 1 2 3] 1 2 3 4 5 show ?thesis by simp
qed

lemma mset_filter_disjoint:
  "(\<forall>x \<in> set xs. \<not> (P x \<and> Q x)) \<Longrightarrow>
     mset (filter P xs) + mset (filter Q xs) = mset (filter (\<lambda>x. P x \<or> Q x) xs)"
  by (induction xs) auto

lemma mset_inner_join_snd:
  assumes "distinct (map session_id ss)"
  shows "mset (map snd (inner_join (\<lambda>s ar. ar_session_id ar = Some (session_id s)) ss rs))
         = mset (filter (\<lambda>r. \<exists>s \<in> set ss. ar_session_id r = Some (session_id s)) rs)"
  using assms
proof (induction ss)
  case Nil
  then show ?case by (simp add: inner_join_def)
next
  case (Cons s ss)
  let ?P = "\<lambda>r. ar_session_id r = Some (session_id s)"
  let ?Q = "\<lambda>r. \<exists>s' \<in> set ss. ar_session_id r = Some (session_id s')"
  from Cons.prems have "session_id s \<notin> session_id ` set ss" by simp
  then have "\<forall>r \<in> set rs. \<not> (?P r \<and> ?Q r)" by (auto simp: image_iff)
  from mset_filter_disjoint[OF this]
  have "mset (filter ?P rs) + mset (filter ?Q rs) = mset (filter (\<lambda>r. ?P r \<or> ?Q r) rs)" .
  moreover from Cons have "mset (map snd (inner_join (\<lambda>s ar. ar_session_id ar = Some (session_id s)) ss rs))
      = mset (filter ?Q rs)" by simp
  moreover have "map snd (inner_join (\<lambda>s ar. ar_session_id ar = Some (session_id s)) (s # ss) rs)
      = filter ?P rs @ map snd (inner_join (\<lambda>s ar. ar_session_id ar = Some (session_id s)) ss rs)"
    by (simp add: inner_join_def comp_def)
  ultimately show ?case by simp
qed

lemma engagement_group_inner_join:
  "engagement_group cur st sec =
     inner_join (\<lambda>s ar. ar_session_id ar = Some (session_id s))
       (filter (\<lambda>s. session_section s = sec)
          (filter (\<lambda>s. cur - 7 \<le> session_date s) (attendance_sessions st)))
       (attendance_records st)"
  by (simp add: engagement_group_def engagement_from_def filter_inner_join)

lemma engagement_group_records:
  assumes "keys_unique st" and "no_future_sessions cur st"
  shows "mset (map snd (engagement_group cur st sec)) = mset (section_records cur st sec)"
proof -
  let ?S = "filter (\<lambda>s. session_section s = sec)
          (filter (\<lambda>s. cur - 7 \<le> session_date s) (attendance_sessions st))"
  from assms(1) have "distinct (map session_id ?S)"
    by (simp add: keys_unique_def distinct_map_filter)
  from mset_inner_join_snd[OF this, of "attendance_records st"]
  have "mset (map snd (engagement_group cur st sec))
        = mset (filter (\<lambda>r. \<exists>s \<in> set ?S. ar_session_id r = Some (session_id s))
                  (attendance_records st))"
    by (simp add: engagement_group_inner_join)
  also have "filter (\<lambda>r. \<exists>s \<in> set ?S. ar_session_id r = Some (session_id s))
                  (attendance_records st) = section_records cur st sec"
    unfolding section_records_def in_last_days_def
    using assms(2) by (intro filter_cong) (auto simp: no_future_sessions_def)
  finally show ?thesis .
qed

lemma sql_count_if:
  "sql_count (map (\<lambda>x. if P x then Some c else None) xs) = length (filter P xs)"
  by (induction xs) (simp_all add: sql_count_def)

lemma mset_non_null:
  "mset (non_null vs) = image_mset the (filter_mset (\<lambda>v. v \<noteq> None) (mset vs))"
  by (induction vs rule: non_null.induct) simp_all

lemma sql_avg_mset_cong:
  assumes "mset vs = mset ws"
  shows "sql_avg vs = sql_avg ws"
proof -
  from assms have eq: "mset (non_null vs) = mset (non_null ws)"
    by (simp add: mset_non_null)
  then have "length (non_null vs) = length (non_null ws)" by (rule mset_eq_length)
  moreover from eq have "sum_list (non_null vs) = sum_list (non_null ws)"
    using mset_eq_sum_list_map[of "non_null vs" "non_null ws" "\<lambda>x. x"] by simp
  moreover from eq have "non_null vs = [] \<longleftrightarrow> non_null ws = []"
    by (metis mset_zero_iff)
  ultimately show ?thesis by (simp add: sql_avg_def Let_def)
qed

lemma engagement_sections:
  "set (map eg_section (engagement cur st)) = {sec. engagement_group cur st sec \<noteq> []}"
proof -
  have "map eg_section (engagement cur st)
        = remdups (map (\<lambda>(s, ar). session_section s) (engagement_from cur st))"
    by (simp add: engagement_def comp_def)
  moreover have "engagement_group cur st sec \<noteq> [] \<longleftrightarrow>
      sec \<in> (\<lambda>(s, ar). session_section s) ` set (engagement_from cur st)" for sec
    by (force simp: engagement_group_def filter_empty_conv image_iff)
  ultimately show ?thesis by auto
qed

text \<open>
  Claim C7. In a store whose keys are unique and that has no session dated after the
  current day, the engagement result has exactly one row for each section that has a
  record joined to one of its sessions dated within the last 7 days (from \<open>cur - 7\<close>
  to \<open>cur\<close>). In that row \<open>total_count\<close> is the number of those records, whatever their
  status, \<open>present_count\<close> the number of them whose status is \<open>present\<close>, and
  \<open>avg_engagement\<close> the mean of their confidence scores (\<^verbatim>\<open>AVG\<close> passes over a record
  whose score is \<^verbatim>\<open>NULL\<close>; when every record has a score it is their sum over their
  number). On the sample data, five records of section S33, three \<open>present\<close>, one
  \<open>partial\<close>, one \<open>absent\<close>, give \<open>present_count = 3\<close> and \<open>total_count = 5\<close>.
\<close>

theorem engagement_per_section:
  assumes "keys_unique st" and "no_future_sessions cur st"
  shows "set (map eg_section (engagement cur st)) = {sec. section_records cur st sec \<noteq> []} \<and>
         distinct (map eg_section (engagement cur st)) \<and>
         (\<forall>row \<in> set (engagement cur st).
            total_count row = length (section_records cur st (eg_section row)) \<and>
            present_count row
              = length (filter is_present (section_records cur st (eg_section row))) \<and>
            avg_engagement row
              = sql_avg (map confidence_score (section_records cur st (eg_section row))) \<and>
            (\<forall>cs. map confidence_score (section_records cur st (eg_section row)) = map Some cs
                \<longrightarrow> avg_engagement row = Some (sum_list cs / of_nat (length cs))))"
proof -
  note perm = engagement_group_records[OF assms]
  have empty: "engagement_group cur st sec \<noteq> [] \<longleftrightarrow> section_records cur st sec \<noteq> []" for sec
    using perm[of sec] by (metis map_is_Nil_conv mset_zero_iff)
  have sections: "set (map eg_section (engagement cur st))
      = {sec. section_records cur st sec \<noteq> []}"
    by (simp only: engagement_sections empty)
  have dist: "distinct (map eg_section (engagement cur st))"
    by (simp add: engagement_def comp_def)
  have total: "length (engagement_group cur st sec) = length (section_records cur st sec)" for sec
    using mset_eq_length[OF perm[of sec]] by simp
  have present: "sql_count (map (\<lambda>(s, ar). if is_present ar then Some (1 :: int) else None)
                                 (engagement_group cur st sec))
      = length (filter is_present (section_records cur st sec))" for sec
  proof -
    have "map (\<lambda>(s, ar). if is_present ar then Some (1 :: int) else None)
              (engagement_group cur st sec)
          = map (\<lambda>ar. if is_present ar then Some 1 else None)
              (map snd (engagement_group cur st sec))"
      by (simp add: case_prod_unfold)
    then have "sql_count (map (\<lambda>(s, ar). if is_present ar then Some (1 :: int) else None)
                                 (engagement_group cur st sec))
        = length (filter is_present (map snd (engagement_group cur st sec)))"
      by (simp only: sql_count_if)
    also have "\<dots> = size (filter_mset is_present (mset (map snd (engagement_group cur st sec))))"
      by (metis mset_filter size_mset)
    also have "\<dots> = length (filter is_present (section_records cur st sec))"
      by (simp only: perm) (metis mset_filter size_mset)
    finally show ?thesis .
  qed
  have avg: "sql_avg (map (\<lambda>(s, ar). confidence_score ar) (engagement_group cur st sec))
      = sql_avg (map confidence_score (section_records cur st sec))" for sec
  proof -
    have "map (\<lambda>(s, ar). confidence_score ar) (engagement_group cur st sec)
        = map confidence_score (map snd (engagement_group cur st sec))"
      by (simp add: case_prod_unfold)
    moreover have "mset (map confidence_score (map snd (engagement_group cur st sec)))
        = mset (map confidence_score (section_records cur st sec))"
      using perm[of sec] by (metis mset_map)
    ultimately show ?thesis using sql_avg_mset_cong by metis
  qed
  have rows: "total_count row = length (section_records cur st (eg_section row)) \<and>
            present_count row
              = length (filter is_present (section_records cur st (eg_section row))) \<and>
            avg_engagement row
              = sql_avg (map confidence_score (section_records cur st (eg_section row))) \<and>
            (\<forall>cs. map confidence_score (section_records cur st (eg_section row)) = map Some cs
                \<longrightarrow> avg_engagement row = Some (sum_list cs / of_nat (length cs)))"
    if "row \<in> set (engagement cur st)" for row
  proof -
    from that obtain sec where row: "row = \<lparr>eg_section = sec,
                  avg_engagement =
                    sql_avg (map (\<lambda>(s, ar). confidence_score ar) (engagement_group cur st sec)),
                  present_count =
                    sql_count (map (\<lambda>(s, ar). if is_present ar then Some (1 :: int) else None)
                                 (engagement_group cur st sec)),
                  total_count = length (engagement_group cur st sec)\<rparr>"
      by (auto simp: engagement_def)
    from that have "eg_section row \<in> set (map eg_section (engagement cur st))" by simp
    with sections row have ne: "section_records cur st sec \<noteq> []" by simp
    have "avg_engagement row = Some (sum_list cs / of_nat (length cs))"
      if cs: "map confidence_score (section_records cur st sec) = map Some cs" for cs
    proof -
      from cs ne have "cs \<noteq> []" by auto
      from sql_avg_map_Some[OF this, of "\<lambda>x. x"] cs row avg[of sec] show ?thesis by simp
    qed
    with row total[of sec] present[of sec] avg[of sec] show ?thesis by simp
  qed
  from sections dist rows show ?thesis by blast
qed

theorem engagement_per_section_witness:
  "keys_unique (sample_store 100) \<and>
   no_future_sessions 100 (sample_store 100) \<and>
   section_records 100 (sample_store 100) ''S33'' = attendance_records (sample_store 100) \<and>
   map status (attendance_records (sample_store 100))
     = [Some ''present'', Some ''present'', Some ''partial'', Some ''absent'', Some ''present''] \<and>
   engagement 100 (sample_store 100)
     = [\<lparr>eg_section = ''S33'', avg_engagement = Some (64 / 100), present_count = 3,
         total_count = 5\<rparr>]"
proof -
  have 0: "keys_unique (sample_store 100)"
    by (simp add: keys_unique_def demo_defs)
  have nf: "no_future_sessions 100 (sample_store 100)"
    by (simp add: no_future_sessions_def demo_defs)
  have 1: "section_records 100 (sample_store 100) ''S33'' = attendance_records (sample_store 100)"
    by (simp add: section_records_def in_last_days_def demo_defs)
  have 2: "map status (attendance_records (sample_store 100))
     = [Some ''present'', Some ''present'', Some ''partial'', Some ''absent'', Some ''present'']"
    by (simp add: demo_defs)
  have 3: "engagement 100 (sample_store 100)
     = [\<lparr>eg_section = ''S33'', avg_engagement = Some (64 / 100), present_count = 3,
         total_count = 5\<rparr>]"
    by (simp add: analytics_eval demo_defs)
  from engagement_per_section[OF 0 nf] 0 nf 1 2 3
  show ?thesis by simp
qed

lemma left_join_row_filter:
  "filter (\<lambda>(a, b). case b of None \<Rightarrow> False | Some y \<Rightarrow> P y)
     (case filter Q ys of [] \<Rightarrow> [(x, None)] | m # ms \<Rightarrow> map (\<lambda>y. (x, Some y)) (m # ms))
   = map (\<lambda>y. (x, Some y)) (filter (\<lambda>y. Q y \<and> P y) ys)"
proof (cases "filter Q ys")
  case Nil
  then have "filter (\<lambda>y. Q y \<and> P y) ys = []" by (auto simp: filter_empty_conv)
  with Nil show ?thesis by simp
next
  case (Cons m ms)
  have a: "filter (\<lambda>y. Q y \<and> P y) ys = filter P (m # ms)"
    using Cons by (metis filter_filter)
  show ?thesis
    unfolding Cons list.case a by (simp add: filter_map comp_def)
qed

lemma filter_left_join_Some:
  "filter (\<lambda>(a, b). case b of None \<Rightarrow> False | Some y \<Rightarrow> P y) (left_join on xs ys)
   = concat (map (\<lambda>x. map (\<lambda>y. (x, Some y)) (filter (\<lambda>y. on x y \<and> P y) ys)) xs)"
proof (induction xs)
  case Nil
  then show ?case by (simp add: left_join_def)
next
  case (Cons x xs)
  have "left_join on (x # xs) ys
      = (case filter (on x) ys of [] \<Rightarrow> [(x, None)] | m # ms \<Rightarrow> map (\<lambda>y. (x, Some y)) (m # ms))
        @ left_join on xs ys"
    by (simp add: left_join_def)
  with Cons left_join_row_filter[where P = P and Q = "on x" and ys = ys and x = x]
  show ?case by simp
qed

lemma concat_map_concat_map:
  "concat (map h (concat (map j xs))) = concat (map (\<lambda>x. concat (map h (j x))) xs)"
  by (induction xs) simp_all

lemma risk_from_concat:
  "risk_from cur st = concat (map (student_rows cur st) (students st))"
proof -
  let ?on1 = "\<lambda>stu ar. ar_student_id ar = Some (student_id stu)"
  let ?on2 = "\<lambda>(stu, ar) s. case ar of None \<Rightarrow> False
                                     | Some r \<Rightarrow> ar_session_id r = Some (session_id s)"
  let ?W = "\<lambda>s. cur - 30 \<le> session_date s"
  let ?h = "\<lambda>x. map (\<lambda>s. (x, Some s)) (filter (\<lambda>s. ?on2 x s \<and> ?W s) (attendance_sessions st))"
  have filt: "(\<lambda>((stu, ar), s). case s of None \<Rightarrow> False | Some s' \<Rightarrow> cur - 30 \<le> session_date s')
      = (\<lambda>(a, b). case b of None \<Rightarrow> False | Some y \<Rightarrow> ?W y)"
    by (simp add: fun_eq_iff)
  have "risk_from cur st
      = concat (map ?h (left_join ?on1 (students st) (attendance_records st)))"
    unfolding risk_from_def filt by (rule filter_left_join_Some)
  also have "\<dots> = concat (map (\<lambda>stu. concat (map ?h
      (case filter (?on1 stu) (attendance_records st) of
         [] \<Rightarrow> [(stu, None)] | m # ms \<Rightarrow> map (\<lambda>y. (stu, Some y)) (m # ms)))) (students st))"
    by (simp add: left_join_def concat_map_concat_map)
  also have "\<dots> = concat (map (student_rows cur st) (students st))"
  proof -
    have "concat (map ?h
      (case filter (?on1 stu) (attendance_records st) of
         [] \<Rightarrow> [(stu, None)] | m # ms \<Rightarrow> map (\<lambda>y. (stu, Some y)) (m # ms)))
      = student_rows cur st stu" for stu
    proof (cases "filter (?on1 stu) (attendance_records st)")
      case Nil
      then show ?thesis by (simp add: student_rows_def)
    next
      case (Cons m ms)
      then show ?thesis by (simp add: student_rows_def comp_def)
    qed
    then show ?thesis by simp
  qed
  finally show ?thesis .
qed

lemma concat_map_const_filter:
  assumes "\<forall>r \<in> set rs. length (g r) \<le> 1"
  shows "concat (map (\<lambda>r. map (\<lambda>s. F r) (g r)) rs) = map F (filter (\<lambda>r. g r \<noteq> []) rs)"
  using assms
proof (induction rs)
  case Nil
  then show ?case by simp
next
  case (Cons r rs)
  from Cons.prems have "length (g r) \<le> 1" by simp
  then have "g r = [] \<or> (\<exists>s. g r = [s])"
    by (cases "g r") (auto simp: length_Suc_conv)
  with Cons show ?case by auto
qed

lemma filter_key_at_most_one:
  assumes "distinct (map h xs)"
  shows "length (filter (\<lambda>s. h s = k \<and> W s) xs) \<le> 1"
  using assms
proof (induction xs)
  case Nil
  then show ?case by simp
next
  case (Cons x xs)
  show ?case
  proof (cases "h x = k")
    case True
    with Cons.prems have "k \<notin> h ` set xs" by auto
    then have "filter (\<lambda>s. h s = k \<and> W s) xs = []"
      by (auto simp: filter_empty_conv)
    then show ?thesis by simp
  next
    case False
    with Cons show ?thesis by simp
  qed
qed

lemma student_rows_records:
  assumes "keys_unique st" and "no_future_sessions cur st"
  shows "map (\<lambda>((stu, ar), s). ar) (student_rows cur st x)
         = map Some (student_records cur st (student_id x))"
proof -
  let ?g = "\<lambda>r. filter (\<lambda>s. ar_session_id r = Some (session_id s) \<and> cur - 30 \<le> session_date s)
                   (attendance_sessions st)"
  let ?rs = "filter (\<lambda>r. ar_student_id r = Some (student_id x)) (attendance_records st)"
  from assms(1) have "distinct (map session_id (attendance_sessions st))"
    by (simp add: keys_unique_def)
  then have most: "length (filter (\<lambda>s. session_id s = k \<and> cur - 30 \<le> session_date s)
                             (attendance_sessions st)) \<le> 1" for k
    by (rule filter_key_at_most_one)
  have "length (?g r) \<le> 1" for r
  proof (cases "ar_session_id r")
    case None
    then show ?thesis by simp
  next
    case (Some k)
    then have "?g r = filter (\<lambda>s. session_id s = k \<and> cur - 30 \<le> session_date s)
                             (attendance_sessions st)"
      by (auto intro: filter_cong)
    with most[of k] show ?thesis by simp
  qed
  then have one: "\<forall>r \<in> set ?rs. length (?g r) \<le> 1" by blast
  have "map (\<lambda>((stu, ar), s). ar) (student_rows cur st x)
        = concat (map (\<lambda>r. map (\<lambda>s. Some r) (?g r)) ?rs)"
    by (simp add: student_rows_def map_concat comp_def)
  also have "\<dots> = map Some (filter (\<lambda>r. ?g r \<noteq> []) ?rs)"
    by (rule concat_map_const_filter[OF one])
  also have "filter (\<lambda>r. ?g r \<noteq> []) ?rs = student_records cur st (student_id x)"
    unfolding student_records_def in_last_days_def filter_filter
    using assms(2) by (intro filter_cong) (auto simp: filter_empty_conv no_future_sessions_def)
  finally show ?thesis .
qed

lemma student_rows_key:
  "row \<in> set (student_rows cur st x) \<Longrightarrow> risk_key row = (student_id x, full_name x)"
  by (auto simp: student_rows_def risk_key_def)

lemma concat_map_only:
  "distinct xs \<Longrightarrow> x \<in> set xs \<Longrightarrow> concat (map (\<lambda>y. if y = x then f y else []) xs) = f x"
proof (induction xs)
  case Nil
  then show ?case by simp
next
  case (Cons a xs)
  show ?case
  proof (cases "a = x")
    case True
    with Cons.prems have "x \<notin> set xs" by simp
    then have "concat (map (\<lambda>y. if y = x then f y else []) xs) = []" by auto
    with True show ?thesis by simp
  next
    case False
    with Cons show ?thesis by simp
  qed
qed

lemma risk_group_student:
  assumes "keys_unique st" and "x \<in> set (students st)"
  shows "risk_group cur st (student_id x, full_name x) = student_rows cur st x"
proof -
  from assms(1) have dist: "distinct (map student_id (students st))"
    by (simp add: keys_unique_def)
  then have inj: "inj_on student_id (set (students st))" and d: "distinct (students st)"
    by (simp_all add: distinct_map)
  have each: "filter (\<lambda>row. risk_key row = (student_id x, full_name x)) (student_rows cur st y)
      = (if y = x then student_rows cur st y else [])" if "y \<in> set (students st)" for y
  proof (cases "y = x")
    case True
    then show ?thesis using student_rows_key[of _ cur st x] by (simp add: filter_id_conv)
  next
    case False
    with inj that assms(2) have "student_id y \<noteq> student_id x" by (auto dest: inj_onD)
    then show ?thesis using False student_rows_key[of _ cur st y]
      by (auto simp: filter_empty_conv)
  qed
  have "risk_group cur st (student_id x, full_name x)
      = concat (map (\<lambda>y. filter (\<lambda>row. risk_key row = (student_id x, full_name x))
                            (student_rows cur st y)) (students st))"
    by (simp add: risk_group_def risk_from_concat filter_concat comp_def)
  also have "\<dots> = concat (map (\<lambda>y. if y = x then student_rows cur st y else []) (students st))"
    using each by (simp cong: map_cong)
  also have "\<dots> = student_rows cur st x"
    by (rule concat_map_only[OF d assms(2)])
  finally show ?thesis .
qed

lemma risk_keys:
  "set (remdups (map risk_key (risk_from cur st)))
   = (\<lambda>x. (student_id x, full_name x)) ` {x \<in> set (students st). student_rows cur st x \<noteq> []}"
proof -
  have "risk_key ` set (student_rows cur st x)
      = (if student_rows cur st x = [] then {} else {(student_id x, full_name x)})" for x
    using student_rows_key[of _ cur st x]
    by (cases "student_rows cur st x") (auto simp: image_iff)
  then show ?thesis
    by (auto simp: risk_from_concat image_UN split: if_splits)
qed

lemma group_row_student:
  assumes "keys_unique st" and "x \<in> set (students st)" and "no_future_sessions cur st"
  shows "group_row cur st (student_id x, full_name x)
         = \<lparr>rk_full_name = full_name x, rk_student_id = student_id x,
            rk_total_sessions = length (student_records cur st (student_id x)),
            rk_attended_sessions =
              length (filter is_present (student_records cur st (student_id x))),
            attendance_percentage = percentage_of (student_records cur st (student_id x))\<rparr>"
proof -
  let ?rows = "student_rows cur st x"
  let ?recs = "student_records cur st (student_id x)"
  note proj = student_rows_records[OF assms(1,3), of x]
  have len: "length ?rows = length ?recs"
    using arg_cong[OF proj, of length] by simp
  have "map (\<lambda>((stu, ar), s). case ar of None \<Rightarrow> None
                   | Some r \<Rightarrow> if is_present r then Some (1 :: int) else None) ?rows
        = map (\<lambda>ar. case ar of None \<Rightarrow> None
                   | Some r \<Rightarrow> if is_present r then Some (1 :: int) else None)
            (map (\<lambda>((stu, ar), s). ar) ?rows)"
    by (simp add: case_prod_unfold)
  also have "\<dots> = map (\<lambda>r. if is_present r then Some (1 :: int) else None) ?recs"
    by (simp only: proj) (simp add: comp_def)
  finally have att: "attended ?rows = length (filter is_present ?recs)"
    by (simp add: attended_def sql_count_if)
  show ?thesis
    by (simp add: group_row_def risk_group_student[OF assms(1,2)] len att percentage_of_def)
qed


lemma student_rows_empty_iff:
  assumes "keys_unique st" and "no_future_sessions cur st"
  shows "student_rows cur st x = [] \<longleftrightarrow> student_records cur st (student_id x) = []"
proof -
  from arg_cong[OF student_rows_records[OF assms, of x], of length]
  have "length (student_rows cur st x) = length (student_records cur st (student_id x))"
    by simp
  then show ?thesis by (metis length_0_conv)
qed

lemma distinct_map_sort_key:
  "distinct (map f (sort_key g xs)) = distinct (map f xs)"
proof -
  have "mset (map f (sort_key g xs)) = mset (map f xs)" by simp
  then show ?thesis by (rule mset_eq_imp_distinct_iff)
qed

text \<open>
  Claim C4. In a store whose keys are unique and that has no session dated after the
  current day, the risk query does not fail, and its rows are, one each, the students
  who have at least one record joined to a session dated within the last 30 days (from
  \<open>cur - 30\<close> to \<open>cur\<close>) and whose percentage \<open>100 * present_count / total_count\<close>
  over those records is below 75. The bound is strict, so a student at exactly 75 is
  left out; a student with no such record forms no group, so nothing is divided by zero
  and the student is left out. Each row carries the student's id and name, the two
  counts and the percentage, and the rows are in ascending order of the percentage.
\<close>

theorem risk_students_below_threshold:
  assumes "keys_unique st" and "no_future_sessions cur st"
  shows "\<exists>rows. riskStudents cur st = Inr rows \<and>
           set (map rk_student_id rows) =
             {student_id x | x. x \<in> set (students st) \<and>
                student_records cur st (student_id x) \<noteq> [] \<and>
                percentage_of (student_records cur st (student_id x)) < 75} \<and>
           distinct (map rk_student_id rows) \<and>
           (\<forall>row \<in> set rows. \<exists>x \<in> set (students st).
              rk_student_id row = student_id x \<and> rk_full_name row = full_name x \<and>
              rk_total_sessions row = length (student_records cur st (student_id x)) \<and>
              rk_attended_sessions row =
                length (filter is_present (student_records cur st (student_id x))) \<and>
              attendance_percentage row =
                percentage_of (student_records cur st (student_id x))) \<and>
           sorted (map attendance_percentage rows)"
proof -
  let ?keys = "remdups (map risk_key (risk_from cur st))"
  let ?all = "map (group_row cur st) ?keys"
  let ?rows = "sort_key attendance_percentage
                 (filter (\<lambda>row. attendance_percentage row < 75) ?all)"
  let ?key = "\<lambda>x. (student_id x, full_name x)"
  let ?recs = "\<lambda>x. student_records cur st (student_id x)"
  have run: "riskStudents cur st = Inr ?rows" by (rule riskStudents_Inr)
  have keys: "set ?keys = ?key ` {x \<in> set (students st). ?recs x \<noteq> []}"
    unfolding risk_keys by (simp only: student_rows_empty_iff[OF assms])
  note row = group_row_student[OF assms(1) _ assms(2)]
  have rows: "set ?rows = (\<lambda>x. group_row cur st (?key x)) `
      {x \<in> set (students st). ?recs x \<noteq> [] \<and> percentage_of (?recs x) < 75}"
  proof -
    have "set ?rows = {r \<in> group_row cur st ` set ?keys. attendance_percentage r < 75}"
      by auto
    also have "\<dots> = (\<lambda>x. group_row cur st (?key x)) `
      {x \<in> set (students st). ?recs x \<noteq> [] \<and> percentage_of (?recs x) < 75}"
      unfolding keys using row by (auto simp: image_iff)
    finally show ?thesis .
  qed
  have ids: "set (map rk_student_id ?rows) =
             {student_id x | x. x \<in> set (students st) \<and> ?recs x \<noteq> [] \<and>
                percentage_of (?recs x) < 75}"
  proof -
    have "set (map rk_student_id ?rows) = rk_student_id ` set ?rows"
      by (simp only: set_map)
    also have "\<dots> = {student_id x | x. x \<in> set (students st) \<and> ?recs x \<noteq> [] \<and>
                percentage_of (?recs x) < 75}"
      unfolding rows using row by (auto simp: image_iff)
    finally show ?thesis .
  qed
  have each: "\<forall>r \<in> set ?rows. \<exists>x \<in> set (students st).
              rk_student_id r = student_id x \<and> rk_full_name r = full_name x \<and>
              rk_total_sessions r = length (?recs x) \<and>
              rk_attended_sessions r = length (filter is_present (?recs x)) \<and>
              attendance_percentage r = percentage_of (?recs x)"
    unfolding rows using row by auto
  have dist: "distinct (map rk_student_id ?rows)"
  proof -
    from assms(1) have inj: "inj_on student_id (set (students st))"
      by (simp add: keys_unique_def distinct_map)
    have "inj_on fst (set ?keys)"
      unfolding keys by (rule inj_onI) (auto dest: inj_onD[OF inj])
    then have fst: "distinct (map fst ?keys)" by (simp add: distinct_map)
    have eq: "map rk_student_id ?all = map fst ?keys"
      by (simp add: group_row_def comp_def)
    have "distinct (map rk_student_id ?all)"
      unfolding eq by (rule fst)
    then have "distinct (map rk_student_id
        (filter (\<lambda>row. attendance_percentage row < 75) ?all))"
      by (rule distinct_map_filter)
    then show ?thesis by (simp only: distinct_map_sort_key)
  qed
  have sorted: "sorted (map attendance_percentage ?rows)"
    by (rule sorted_sort_key)
  from run ids dist each sorted show ?thesis by blast
qed

lemmas risk_eval = riskStudents_def risk_row_of_def risk_group_def risk_from_def risk_key_def
  attended_def sql_div_def left_join_def sql_count_def is_present_def

theorem risk_students_below_threshold_witness:
  "keys_unique risk_store \<and>
   no_future_sessions 100 risk_store \<and>
   riskStudents 100 risk_store =
     Inr [\<lparr>rk_full_name = ''Eve'', rk_student_id = ''E'', rk_total_sessions = 1,
           rk_attended_sessions = 0, attendance_percentage = 0\<rparr>,
          \<lparr>rk_full_name = ''Bob'', rk_student_id = ''B'', rk_total_sessions = 4,
           rk_attended_sessions = 2, attendance_percentage = 50\<rparr>] \<and>
   percentage_of (student_records 100 risk_store ''A'') = 75 \<and>
   student_records 100 risk_store ''C'' = [] \<and>
   student_records 100 risk_store ''D'' = []"
proof -
  have wf: "keys_unique risk_store"
    by (simp add: keys_unique_def risk_store_def risk_session_def risk_record_def
        sample_student_def)
  have run: "riskStudents 100 risk_store =
     Inr [\<lparr>rk_full_name = ''Eve'', rk_student_id = ''E'', rk_total_sessions = 1,
           rk_attended_sessions = 0, attendance_percentage = 0\<rparr>,
          \<lparr>rk_full_name = ''Bob'', rk_student_id = ''B'', rk_total_sessions = 4,
           rk_attended_sessions = 2, attendance_percentage = 50\<rparr>]"
    by (simp add: risk_eval risk_store_def risk_session_def risk_record_def sample_student_def)
  have a: "percentage_of (student_records 100 risk_store ''A'') = 75"
    by (simp add: percentage_of_def student_records_def in_last_days_def is_present_def
        risk_store_def risk_session_def risk_record_def)
  have c: "student_records 100 risk_store ''C'' = []"
    by (simp add: student_records_def in_last_days_def risk_store_def risk_session_def
        risk_record_def)
  have d: "student_records 100 risk_store ''D'' = []"
    by (simp add: student_records_def in_last_days_def risk_store_def risk_session_def
        risk_record_def)
  have nf: "no_future_sessions 100 risk_store"
    by (simp add: no_future_sessions_def risk_store_def risk_session_def)
  from risk_students_below_threshold[OF wf nf] wf nf run a c d show ?thesis by simp
qed

end
